theory Spec2Isabelle
  imports Main "HOL-Library.Word"
begin

section \<open>JavaScript strings\<close>

text \<open>
  A JavaScript string is a sequence of UTF-16 code units: \<open>length\<close>, \<open>slice\<close>, \<open>trim\<close>
  and the regular expressions of the extension all work on code units. A string literal
  of the source is written \<open>js ''...''\<close>; characters that cannot stand in such a
  literal are given by their code unit.
\<close>

type_synonym jschar = "16 word"
type_synonym jsstring = "jschar list"

definition js :: "string \<Rightarrow> jsstring" where
  "js s = map of_char s"

text \<open>
  The class \<open>\s\<close> of a JavaScript regular expression, which is also the set of code
  units that \<open>String.prototype.trim\<close> strips (WhiteSpace and LineTerminator of
  ECMAScript).
\<close>

definition isWhiteSpace :: "jschar \<Rightarrow> bool" where
  "isWhiteSpace c \<longleftrightarrow>
     c = 0x9 \<or> c = 0xA \<or> c = 0xB \<or> c = 0xC \<or> c = 0xD \<or> c = 0x20 \<or> c = 0xA0 \<or>
     c = 0x1680 \<or> (0x2000 \<le> c \<and> c \<le> 0x200A) \<or> c = 0x2028 \<or> c = 0x2029 \<or>
     c = 0x202F \<or> c = 0x205F \<or> c = 0x3000 \<or> c = 0xFEFF"

definition trim :: "jsstring \<Rightarrow> jsstring" where
  "trim s = rev (dropWhile isWhiteSpace (rev (dropWhile isWhiteSpace s)))"

text \<open>\<open>s.slice(0, e)\<close>: a negative end counts from the end of the string.\<close>

definition slice0 :: "jsstring \<Rightarrow> int \<Rightarrow> jsstring" where
  "slice0 s e =
     (let n = int (length s);
          k = (if e < 0 then max (n + e) 0 else min e n)
      in take (nat k) s)"

text \<open>\<open>h.includes(p)\<close>: \<open>p\<close> occurs in \<open>h\<close> as a contiguous substring.\<close>

fun includes_js :: "jsstring \<Rightarrow> jsstring \<Rightarrow> bool" where
  "includes_js [] p = (p = [])"
| "includes_js (c # cs) p = (if take (length p) (c # cs) = p then True else includes_js cs p)"

section \<open>Message previews (\<open>messageExtractor.js\<close>, \<open>getPreview\<close>)\<close>

text \<open>
  \<open>text.replace(/\s+/g, ' ')\<close>: scanning from the left, every maximal run of whitespace
  is replaced by one space.
\<close>

function replaceWhitespaceRuns :: "jsstring \<Rightarrow> jsstring" where
  "replaceWhitespaceRuns [] = []"
| "replaceWhitespaceRuns (c # cs) =
     (if isWhiteSpace c then 0x20 # replaceWhitespaceRuns (dropWhile isWhiteSpace cs)
      else c # replaceWhitespaceRuns cs)"
  by pat_completeness auto
termination
  by (relation "measure length") (auto simp: le_imp_less_Suc length_dropWhile_le)

text \<open>\<open>.replace(/[`]/g, '')\<close>: every backtick (code unit 0x60) is deleted.\<close>

definition removeBackticks :: "jsstring \<Rightarrow> jsstring" where
  "removeBackticks s = filter (\<lambda>c. c \<noteq> 0x60) s"

definition getPreview :: "jsstring \<Rightarrow> int \<Rightarrow> jsstring" where
  "getPreview text len =
     (let normalized = trim (removeBackticks (replaceWhitespaceRuns text))
      in if int (length normalized) \<le> len then normalized
         else slice0 normalized len @ js ''...'')"

text \<open>
  A string has its whitespace collapsed when every whitespace code unit in it is a plain
  space that is not followed by another whitespace code unit.
\<close>

fun wsCollapsed :: "jsstring \<Rightarrow> bool" where
  "wsCollapsed [] = True"
| "wsCollapsed [c] = (if isWhiteSpace c then c = 0x20 else True)"
| "wsCollapsed (a # b # cs) =
     ((if isWhiteSpace a then a = 0x20 \<and> \<not> isWhiteSpace b else True) \<and> wsCollapsed (b # cs))"

text \<open>
  Does some run of backticks stand directly between two whitespace code units? Reading
  from the left: a whitespace code unit, then at least one backtick, then whitespace.
\<close>

fun flankedBackticks :: "jsstring \<Rightarrow> bool" where
  "flankedBackticks [] = False"
| "flankedBackticks (w # cs) =
     (if isWhiteSpace w \<and> takeWhile (\<lambda>c. c = 0x60) cs \<noteq> [] \<and>
         (case dropWhile (\<lambda>c. c = 0x60) cs of [] \<Rightarrow> False | w2 # c \<Rightarrow> isWhiteSpace w2)
      then True else flankedBackticks cs)"

section \<open>HTML escaping (\<open>SidebarManager.escapeHtml\<close>)\<close>

text \<open>
  The five reserved characters \<open>&\<close>, \<open><\<close>, \<open>>\<close>, the double quote and the single
  quote, by code unit, and the table \<open>map\<close> of the source.
\<close>

definition htmlEntities :: "(jschar \<times> jsstring) list" where
  "htmlEntities =
     [(0x26, js ''&amp;''), (0x3C, js ''&lt;''), (0x3E, js ''&gt;''),
      (0x22, js ''&quot;''), (0x27, js ''&#039;'')]"

text \<open>The character class \<open>[&<>"']\<close> of the regular expression.\<close>

definition isReserved :: "jschar \<Rightarrow> bool" where
  "isReserved c \<longleftrightarrow> c = 0x26 \<or> c = 0x3C \<or> c = 0x3E \<or> c = 0x22 \<or> c = 0x27"

text \<open>
  The callback \<open>(m) => map[m]\<close>; a key missing from the table would give \<open>undefined\<close>,
  which \<open>replace\<close> inserts as the string "undefined".
\<close>

definition entityOf :: "jschar \<Rightarrow> jsstring" where
  "entityOf m = (case map_of htmlEntities m of Some e \<Rightarrow> e | None \<Rightarrow> js ''undefined'')"

text \<open>
  \<open>text.replace(/[&<>"']/g, (m) => map[m])\<close>: one pass from the left; a matched code
  unit is replaced by the callback's result, which is not scanned again.
\<close>

fun escapeHtml :: "jsstring \<Rightarrow> jsstring" where
  "escapeHtml [] = []"
| "escapeHtml (c # cs) = (if isReserved c then entityOf c else [c]) @ escapeHtml cs"

text \<open>
  Decoding of escaped text, as an HTML parser reads it: one of the five entities stands
  for its character, a literal reserved character is malformed, anything else is itself.
\<close>

fun startsWith :: "jsstring \<Rightarrow> jsstring \<Rightarrow> bool" where
  "startsWith s p = (take (length p) s = p)"

function decodeEntities :: "jsstring \<Rightarrow> jsstring option" where
  "decodeEntities [] = Some []"
| "decodeEntities (c # cs) =
     (if c = 0x26 then
        (if startsWith cs (js ''amp;'') then map_option (Cons 0x26) (decodeEntities (drop 4 cs))
         else if startsWith cs (js ''lt;'') then map_option (Cons 0x3C) (decodeEntities (drop 3 cs))
         else if startsWith cs (js ''gt;'') then map_option (Cons 0x3E) (decodeEntities (drop 3 cs))
         else if startsWith cs (js ''quot;'') then map_option (Cons 0x22) (decodeEntities (drop 5 cs))
         else if startsWith cs (js ''#039;'') then map_option (Cons 0x27) (decodeEntities (drop 5 cs))
         else None)
      else if isReserved c then None
      else map_option (Cons c) (decodeEntities cs))"
  by pat_completeness auto
termination
  by (relation "measure length") auto

section \<open>Platform registry (\<open>platformDetector.js\<close>)\<close>

text \<open>
  The selector passed to \<open>findElements\<close> and \<open>extractText\<close> is a string or an array of
  strings (\<open>{string|Array}\<close> in the source).
\<close>

datatype selectorArg = SelString jsstring | SelArray "jsstring list"

text \<open>
  The \<open>selectors\<close> object of a platform. \<open>messageContent\<close> may be absent;
  \<open>fallbackUserMessage\<close> is \<open>selectors.fallbackSelectors?.userMessage\<close>, absent in
  the built-in configuration.
\<close>

record selectors =
  userMessage :: jsstring
  assistantMessage :: jsstring
  messageContent :: "selectorArg option"
  scrollContainer :: jsstring
  fallbackUserMessage :: "jsstring list option"

record platformConfig =
  name :: jsstring
  urls :: "jsstring list"
  selectors :: selectors

text \<open>The detected platform \<open>{ key: platformKey, ...platformConfig }\<close>.\<close>

record platform = platformConfig +
  key :: jsstring

text \<open>
  \<open>platformsConfig\<close> is \<open>null\<close> until \<open>init\<close> has run; afterwards it holds the entries of
  \<open>platformsConfig.platforms\<close> in the order in which \<open>Object.entries\<close> enumerates them.
\<close>

record platformDetector =
  platformsConfig :: "(jsstring \<times> platformConfig) list option"
  currentPlatform :: "platform option"

definition newPlatformDetector :: platformDetector where
  "newPlatformDetector = \<lparr>platformsConfig = None, currentPlatform = None\<rparr>"

definition attr :: "string \<Rightarrow> string \<Rightarrow> jsstring" where
  "attr a v = js ''['' @ js a @ js ''='' @ [0x22] @ js v @ [0x22] @ js '']''"

definition getDefaultPlatformsConfig :: "(jsstring \<times> platformConfig) list" where
  "getDefaultPlatformsConfig =
     [(js ''chatgpt'',
       \<lparr>name = js ''ChatGPT'', urls = [js ''chat.openai.com'', js ''chatgpt.com''],
        selectors = \<lparr>userMessage = attr ''role'' ''user'',
          assistantMessage = attr ''role'' ''assistant'',
          messageContent = Some (SelString (js ''div:first-child'')),
          scrollContainer = js ''main'', fallbackUserMessage = None\<rparr>\<rparr>),
      (js ''gemini'',
       \<lparr>name = js ''Google Gemini'', urls = [js ''gemini.google.com''],
        selectors = \<lparr>userMessage = attr ''data-role'' ''user'',
          assistantMessage = attr ''data-role'' ''assistant'',
          messageContent = Some (SelString (js ''.message-content, '' @ attr ''role'' ''article'')),
          scrollContainer = js ''body'', fallbackUserMessage = None\<rparr>\<rparr>),
      (js ''claude'',
       \<lparr>name = js ''Anthropic Claude'', urls = [js ''claude.ai''],
        selectors = \<lparr>userMessage = js ''.user-message'',
          assistantMessage = js ''.assistant-message'',
          messageContent = Some (SelString (js ''.message-text, '' @ attr ''role'' ''article'')),
          scrollContainer = js ''main'', fallbackUserMessage = None\<rparr>\<rparr>),
      (js ''deepseek'',
       \<lparr>name = js ''DeepSeek'', urls = [js ''chat.deepseek.com''],
        selectors = \<lparr>userMessage = attr ''data-sender'' ''user'',
          assistantMessage = attr ''data-sender'' ''assistant'',
          messageContent = Some (SelString (js ''.ds-message-content, .message-content'')),
          scrollContainer = js ''body'', fallbackUserMessage = None\<rparr>\<rparr>),
      (js ''doubao'',
       \<lparr>name = [0x5B57, 0x8282, 0x8C46, 0x5305], urls = [js ''doubao.com''],
        selectors = \<lparr>userMessage = attr ''data-type'' ''user'',
          assistantMessage = attr ''data-type'' ''assistant'',
          messageContent = Some (SelString (js ''.message-body, .message-content'')),
          scrollContainer = js ''body'', fallbackUserMessage = None\<rparr>\<rparr>)]"

text \<open>
  The inner loop of \<open>detectPlatform\<close>: does one of the platform's URL patterns occur
  in the hostname?
\<close>

fun anyUrlIncluded :: "jsstring \<Rightarrow> jsstring list \<Rightarrow> bool" where
  "anyUrlIncluded host [] = False"
| "anyUrlIncluded host (urlPattern # rest) =
     (if includes_js host urlPattern then True else anyUrlIncluded host rest)"

text \<open>The outer loop: the first entry with a matching pattern is returned with its key.\<close>

fun scanPlatforms :: "jsstring \<Rightarrow> (jsstring \<times> platformConfig) list \<Rightarrow> platform option" where
  "scanPlatforms host [] = None"
| "scanPlatforms host ((platformKey, pc) # rest) =
     (if anyUrlIncluded host (urls pc)
      then Some \<lparr>name = name pc, urls = urls pc, selectors = selectors pc, key = platformKey\<rparr>
      else scanPlatforms host rest)"

text \<open>
  \<open>detectPlatform\<close>, with \<open>window.location.hostname\<close> as the argument \<open>host\<close>. A match
  is stored in \<open>currentPlatform\<close>; without a match the field keeps its value.
\<close>

definition detectPlatform :: "jsstring \<Rightarrow> platformDetector \<Rightarrow> platform option \<times> platformDetector" where
  "detectPlatform host d =
     (case platformsConfig d of
        None \<Rightarrow> (None, d)
      | Some entries \<Rightarrow>
          (case scanPlatforms host entries of
             Some p \<Rightarrow> (Some p, d\<lparr>currentPlatform := Some p\<rparr>)
           | None \<Rightarrow> (None, d)))"

definition getPlatformConfig :: "platformDetector \<Rightarrow> platform option" where
  "getPlatformConfig d = currentPlatform d"

text \<open>\<open>this.currentPlatform?.name || 'Unknown Platform'\<close>: an empty name is falsy.\<close>

definition getPlatformName :: "platformDetector \<Rightarrow> jsstring" where
  "getPlatformName d =
     (case currentPlatform d of
        None \<Rightarrow> js ''Unknown Platform''
      | Some p \<Rightarrow> if name p = [] then js ''Unknown Platform'' else name p)"

section \<open>The page\<close>

text \<open>
  The host page as the extractor reads it. An element is a node handle. \<open>allElements\<close>
  lists the elements of the document in document order, \<open>descendants e\<close> those below
  \<open>e\<close> in document order. \<open>validSelector\<close> tells whether the browser accepts a selector
  string and \<open>matches\<close> whether an element matches it (\<open>Element.matches\<close>).
\<close>

type_synonym element = nat

record dom =
  allElements :: "element list"
  descendants :: "element \<Rightarrow> element list"
  textContent :: "element \<Rightarrow> jsstring"
  validSelector :: "jsstring \<Rightarrow> bool"
  matches :: "jsstring \<Rightarrow> element \<Rightarrow> bool"

datatype error = SyntaxError jsstring

text \<open>
  \<open>document.querySelectorAll(sel)\<close> and \<open>element.querySelector(sel)\<close>: both throw a
  SyntaxError on a selector the browser rejects.
\<close>

definition querySelectorAll :: "dom \<Rightarrow> jsstring \<Rightarrow> error + element list" where
  "querySelectorAll d sel =
     (if validSelector d sel then Inr (filter (matches d sel) (allElements d))
      else Inl (SyntaxError sel))"

definition querySelector :: "dom \<Rightarrow> element \<Rightarrow> jsstring \<Rightarrow> error + element option" where
  "querySelector d e sel =
     (if validSelector d sel then Inr (find (matches d sel) (descendants d e))
      else Inl (SyntaxError sel))"

text \<open>
  The selectors written as literals in the source (\<open>.ds-message\<close>, \<open>.fbb737a4\<close>,
  \<open>.ds-message .fbb737a4\<close>) are well-formed CSS, so the queries with them do not throw.
\<close>

definition queryAllLiteral :: "dom \<Rightarrow> jsstring \<Rightarrow> element list" where
  "queryAllLiteral d sel = filter (matches d sel) (allElements d)"

definition queryLiteral :: "dom \<Rightarrow> element \<Rightarrow> jsstring \<Rightarrow> element option" where
  "queryLiteral d e sel = find (matches d sel) (descendants d e)"

section \<open>Message extractor (\<open>messageExtractor.js\<close>)\<close>

record messageRecord =
  index :: nat
  userText :: jsstring
  userElement :: element
  timestamp :: int
  preview :: jsstring

text \<open>
  The fields of a \<open>MessageExtractor\<close>. Its \<open>platformDetector\<close> is a reference to the
  shared detector object, which the methods below take as an argument. The extractor's
  console output changes no field and no result, and is left out.
\<close>

record messageExtractor =
  messages :: "messageRecord list"
  lastExtractTime :: int

definition newMessageExtractor :: messageExtractor where
  "newMessageExtractor = \<lparr>messages = [], lastExtractTime = 0\<rparr>"

text \<open>
  \<open>findElements\<close> on an array: the first selector that is accepted and matches at least
  one element gives the result; a rejected selector is caught and skipped; \<open>null\<close> when
  no selector is left.
\<close>

fun findElementsArray :: "dom \<Rightarrow> jsstring list \<Rightarrow> element list option" where
  "findElementsArray d [] = None"
| "findElementsArray d (selector # rest) =
     (case querySelectorAll d selector of
        Inr elements \<Rightarrow> if length elements > 0 then Some elements else findElementsArray d rest
      | Inl err \<Rightarrow> findElementsArray d rest)"

text \<open>
  \<open>findElements\<close>: on a string, whatever \<open>querySelectorAll\<close> returns (possibly an empty
  list), or \<open>null\<close> when it throws.
\<close>

fun findElements :: "dom \<Rightarrow> selectorArg \<Rightarrow> element list option" where
  "findElements d (SelArray sels) = findElementsArray d sels"
| "findElements d (SelString sel) =
     (case querySelectorAll d sel of Inr elements \<Rightarrow> Some elements | Inl err \<Rightarrow> None)"

text \<open>The test \<open>if (contentSelector)\<close>: the empty string is falsy, every array is truthy.\<close>

fun truthySelector :: "selectorArg \<Rightarrow> bool" where
  "truthySelector (SelString sel) = (sel \<noteq> [])"
| "truthySelector (SelArray sels) = True"

fun selectorArray :: "selectorArg \<Rightarrow> jsstring list" where
  "selectorArray (SelArray sels) = sels"
| "selectorArray (SelString sel) = [sel]"

text \<open>
  The loop of \<open>extractText\<close> over \<open>selectorArray\<close>: the first selector with a matching
  descendant gives the text element. \<open>element.querySelector\<close> is not guarded here, so
  a rejected selector throws out of the loop.
\<close>

fun firstChild :: "dom \<Rightarrow> element \<Rightarrow> jsstring list \<Rightarrow> error + element option" where
  "firstChild d element [] = Inr None"
| "firstChild d element (selector # rest) =
     (case querySelector d element selector of
        Inl err \<Rightarrow> Inl err
      | Inr (Some child) \<Rightarrow> Inr (Some child)
      | Inr None \<Rightarrow> firstChild d element rest)"

text \<open>
  \<open>extractText(element, contentSelector)\<close>. The callers always pass an element, so the
  guard \<open>if (!element)\<close> never fires; \<open>textContent\<close> of an element is never \<open>null\<close>.
\<close>

definition extractText :: "dom \<Rightarrow> element \<Rightarrow> selectorArg option \<Rightarrow> error + jsstring" where
  "extractText d element contentSelector =
     (case contentSelector of
        None \<Rightarrow> Inr (trim (textContent d element))
      | Some cs \<Rightarrow>
          if \<not> truthySelector cs then Inr (trim (textContent d element))
          else
            (case findElements d cs of
               None \<Rightarrow> Inr (trim (textContent d element))
             | Some found \<Rightarrow>
                 if length found > 0 then
                   (case firstChild d element (selectorArray cs) of
                      Inl err \<Rightarrow> Inl err
                    | Inr None \<Rightarrow> Inr (trim (textContent d element))
                    | Inr (Some child) \<Rightarrow> Inr (trim (textContent d child)))
                 else Inr (trim (textContent d element))))"

text \<open>
  The \<open>forEach\<close> of the generic path of \<open>extractMessages\<close>: \<open>i\<close> is the position of the
  element among the matched elements, \<open>acc\<close> the array \<open>messages\<close> built so far. The
  clock is read once for a pass (\<open>now\<close>).
\<close>

fun extractEach ::
  "dom \<Rightarrow> int \<Rightarrow> selectorArg option \<Rightarrow> nat \<Rightarrow> element list \<Rightarrow> messageRecord list
     \<Rightarrow> error + messageRecord list" where
  "extractEach d now cs i [] acc = Inr acc"
| "extractEach d now cs i (e # es) acc =
     (case extractText d e cs of
        Inl err \<Rightarrow> Inl err
      | Inr txt \<Rightarrow>
          if length txt > 0
          then extractEach d now cs (Suc i) es
                 (acc @ [\<lparr>index = i, userText = txt, userElement = e, timestamp = now,
                          preview = getPreview txt 60\<rparr>])
          else extractEach d now cs (Suc i) es acc)"

text \<open>The \<open>forEach\<close> of \<open>extractMessagesForDeepSeek\<close> over the \<open>.ds-message\<close> elements.\<close>

fun extractEachDeepSeek ::
  "dom \<Rightarrow> int \<Rightarrow> element list \<Rightarrow> messageRecord list \<Rightarrow> messageRecord list" where
  "extractEachDeepSeek d now [] acc = acc"
| "extractEachDeepSeek d now (e # es) acc =
     (case queryLiteral d e (js ''.fbb737a4'') of
        None \<Rightarrow> extractEachDeepSeek d now es acc
      | Some userContent \<Rightarrow>
          (let txt = trim (textContent d userContent)
           in if length txt > 0
              then extractEachDeepSeek d now es
                     (acc @ [\<lparr>index = length acc, userText = txt, userElement = e,
                              timestamp = now, preview = getPreview txt 60\<rparr>])
              else extractEachDeepSeek d now es acc))"

definition extractMessagesForDeepSeek ::
  "dom \<Rightarrow> int \<Rightarrow> messageExtractor \<Rightarrow> messageRecord list \<times> messageExtractor" where
  "extractMessagesForDeepSeek d now ex =
     (let msgs = extractEachDeepSeek d now (queryAllLiteral d (js ''.ds-message'')) []
      in (msgs, ex\<lparr>messages := msgs, lastExtractTime := now\<rparr>))"

text \<open>\<open>[userMessage, ...(fallbackSelectors?.userMessage || [])]\<close>\<close>

definition userSelectors :: "platform \<Rightarrow> jsstring list" where
  "userSelectors p =
     userMessage (selectors p) #
       (case fallbackUserMessage (selectors p) of Some fs \<Rightarrow> fs | None \<Rightarrow> [])"

text \<open>
  \<open>extractMessages\<close>: the returned array and the extractor afterwards, or the exception
  that leaves the method.
\<close>

definition extractMessages ::
  "dom \<Rightarrow> int \<Rightarrow> platformDetector \<Rightarrow> messageExtractor
     \<Rightarrow> error + (messageRecord list \<times> messageExtractor)" where
  "extractMessages d now det ex =
     (case getPlatformConfig det of
        None \<Rightarrow> Inr ([], ex)
      | Some p \<Rightarrow>
          if key p = js ''deepseek'' then Inr (extractMessagesForDeepSeek d now ex)
          else
            (case findElements d (SelArray (userSelectors p)) of
               None \<Rightarrow> Inr ([], ex)
             | Some userElements \<Rightarrow>
                 if length userElements = 0 then Inr ([], ex)
                 else
                   (case extractEach d now (messageContent (selectors p)) 0 userElements [] of
                      Inl err \<Rightarrow> Inl err
                    | Inr msgs \<Rightarrow> Inr (msgs, ex\<lparr>messages := msgs, lastExtractTime := now\<rparr>))))"

definition getMessages :: "messageExtractor \<Rightarrow> messageRecord list" where
  "getMessages ex = messages ex"

text \<open>
  A JavaScript number as \<open>parseInt\<close> produces it: an integer or \<open>NaN\<close>.
  \<open>this.messages[index] || null\<close> is a record only for an integer index inside the array.
\<close>

datatype jsnumber = NaN | Num int

fun getMessageByIndex :: "messageExtractor \<Rightarrow> jsnumber \<Rightarrow> messageRecord option" where
  "getMessageByIndex ex NaN = None"
| "getMessageByIndex ex (Num i) =
     (if 0 \<le> i \<and> nat i < length (messages ex) then Some (messages ex ! nat i) else None)"

definition getMessageCount :: "messageExtractor \<Rightarrow> nat" where
  "getMessageCount ex = length (messages ex)"

definition clearMessages :: "messageExtractor \<Rightarrow> messageExtractor" where
  "clearMessages ex = ex\<lparr>messages := []\<rparr>"



section \<open>Sidebar manager (\<open>SidebarManager\<close>)\<close>

text \<open>
  The sidebar's own DOM. A row of the message list carries the markup that
  \<open>updateSidebar\<close> writes for it: the \<open>data-index\<close> attribute, the \<open>title\<close> attribute, the
  ordinal and the preview text, and whether it has the class \<open>active\<close>.
\<close>

record sidebarItem =
  dataIndex :: nat
  titleMarkup :: jsstring
  ordinal :: nat
  textMarkup :: jsstring
  active :: bool

datatype messageList = Loading | EmptyNotice | MessageItems "sidebarItem list"

text \<open>
  \<open>collapsed\<close>: the root has the class \<open>collapsed\<close>. \<open>toggleIcon\<close>: the text of
  \<open>.aichathelper-toggle-icon\<close>. \<open>listContent\<close>: the children of
  \<open>.aichathelper-messages\<close>. \<open>platformLabel\<close>: the text of \<open>.aichathelper-platform\<close>.
  The two counters are the click listeners on the toggle button and on the message
  list. \<open>rowInView\<close>: the row last scrolled into view inside the sidebar.
\<close>

record sidebar =
  collapsed :: bool
  toggleIcon :: jsstring
  listContent :: messageList
  platformLabel :: jsstring
  toggleListeners :: nat
  listListeners :: nat
  rowInView :: "nat option"

text \<open>
  The fields of a \<open>SidebarManager\<close>; its references to the extractor and the detector
  are arguments of the methods below. The field \<open>debounceTimer\<close> is used by \<open>refresh\<close>
  and \<open>destroy\<close> only, which are not part of this development.
\<close>

record sidebarManager =
  sidebarElement :: "sidebar option"
  isVisible :: bool
  highlightedElement :: "element option"

definition newSidebarManager :: sidebarManager where
  "newSidebarManager = \<lparr>sidebarElement = None, isVisible = True, highlightedElement = None\<rparr>"

datatype consoleLine = WarnMessageNotFound jsnumber

text \<open>
  What the manager changes outside its own fields: the sidebar roots appended to
  \<open>document.body\<close>, the page elements carrying the class \<open>aichathelper-highlighted\<close>,
  the page element last scrolled into view (the page's scroll position),
  \<open>chrome.storage.local\<close>, the console, and the pending highlight-removal timeouts.
\<close>

record browser =
  bodySidebars :: nat
  highlighted :: "element set"
  scrolledTo :: "element option"
  storage :: "jsstring \<rightharpoonup> bool"
  console :: "consoleLine list"
  highlightTimers :: nat

text \<open>
  \<open>attachEventListeners\<close>: the markup of \<open>createSidebar\<close> always holds the toggle button
  and the message list, so both listeners are added.
\<close>

definition attachEventListeners :: "sidebarManager \<Rightarrow> sidebarManager" where
  "attachEventListeners mgr =
     (case sidebarElement mgr of
        None \<Rightarrow> mgr
      | Some sb \<Rightarrow>
          mgr\<lparr>sidebarElement :=
            Some (sb\<lparr>toggleListeners := toggleListeners sb + 1,
                     listListeners := listListeners sb + 1\<rparr>)\<rparr>)"

text \<open>The markup assigned to \<open>sidebar.innerHTML\<close>; the minus sign is U+2212.\<close>

definition sidebarTemplate :: sidebar where
  "sidebarTemplate =
     \<lparr>collapsed = False, toggleIcon = [0x2212], listContent = Loading, platformLabel = [],
      toggleListeners = 0, listListeners = 0, rowInView = None\<rparr>"

text \<open>
  \<open>createSidebar\<close>: the element built is appended to the body and stored in the field
  before the listeners are attached; the method returns that same element, whose state
  after the call is the one read back from the field.
\<close>

definition createSidebar ::
  "sidebarManager \<Rightarrow> browser \<Rightarrow> sidebar \<times> sidebarManager \<times> browser" where
  "createSidebar mgr br =
     (case sidebarElement mgr of
        Some sb \<Rightarrow> (sb, mgr, br)
      | None \<Rightarrow>
          (let br' = br\<lparr>bodySidebars := bodySidebars br + 1\<rparr>;
               mgr' = attachEventListeners (mgr\<lparr>sidebarElement := Some sidebarTemplate\<rparr>)
           in (case sidebarElement mgr' of
                 Some sidebar \<Rightarrow> (sidebar, mgr', br')
               | None \<Rightarrow> (sidebarTemplate, mgr', br'))))"

text \<open>
  \<open>updateSidebar\<close>: \<open>messages.map((msg, idx) => ...)\<close> writes one row per cached record,
  with both inserted texts passed through \<open>escapeHtml\<close>. The label is the string
  U+5E73 U+53F0 \<open>": "\<close> followed by the platform name.
\<close>

definition renderItems :: "messageRecord list \<Rightarrow> sidebarItem list" where
  "renderItems msgs =
     map (\<lambda>(idx, msg).
            \<lparr>dataIndex = idx, titleMarkup = escapeHtml (userText msg), ordinal = idx + 1,
             textMarkup = escapeHtml (preview msg), active = False\<rparr>)
         (enumerate 0 msgs)"

definition updateSidebar ::
  "sidebarManager \<Rightarrow> messageExtractor \<Rightarrow> platformDetector \<Rightarrow> browser
     \<Rightarrow> sidebarManager \<times> browser" where
  "updateSidebar mgr ex det br =
     (case createSidebar mgr br of
        (sb, mgr', br') \<Rightarrow>
          (let msgs = getMessages ex;
               sb1 = sb\<lparr>platformLabel := [0x5E73, 0x53F0, 0x3A, 0x20] @ getPlatformName det\<rparr>;
               sb2 = (if length msgs = 0 then sb1\<lparr>listContent := EmptyNotice\<rparr>
                      else sb1\<lparr>listContent := MessageItems (renderItems msgs)\<rparr>)
           in (mgr'\<lparr>sidebarElement := Some sb2\<rparr>, br')))"

text \<open>
  \<open>updateActiveItem(index)\<close>: every row loses the class \<open>active\<close>; the row whose
  \<open>data-index\<close> attribute is the decimal form of \<open>index\<close>, if there is one, gets it and
  is scrolled into view.
\<close>

fun rowWithIndex :: "jsnumber \<Rightarrow> sidebarItem list \<Rightarrow> nat option" where
  "rowWithIndex NaN items = None"
| "rowWithIndex (Num i) items =
     (if 0 \<le> i \<and> find (\<lambda>it. dataIndex it = nat i) items \<noteq> None then Some (nat i) else None)"

definition clearActive :: "sidebarItem list \<Rightarrow> sidebarItem list" where
  "clearActive items = map (\<lambda>it. it\<lparr>active := False\<rparr>) items"

fun markActive :: "nat \<Rightarrow> sidebarItem list \<Rightarrow> sidebarItem list" where
  "markActive k [] = []"
| "markActive k (it # items) =
     (if dataIndex it = k then it\<lparr>active := True\<rparr> # items else it # markActive k items)"

definition updateActiveItem :: "sidebarManager \<Rightarrow> jsnumber \<Rightarrow> sidebarManager" where
  "updateActiveItem mgr idx =
     (case sidebarElement mgr of
        None \<Rightarrow> mgr
      | Some sb \<Rightarrow>
          (case listContent sb of
             MessageItems items \<Rightarrow>
               (case rowWithIndex idx items of
                  None \<Rightarrow>
                    mgr\<lparr>sidebarElement := Some (sb\<lparr>listContent := MessageItems (clearActive items)\<rparr>)\<rparr>
                | Some k \<Rightarrow>
                    mgr\<lparr>sidebarElement :=
                      Some (sb\<lparr>listContent := MessageItems (markActive k (clearActive items)),
                               rowInView := Some k\<rparr>)\<rparr>)
           | Loading \<Rightarrow> mgr
           | EmptyNotice \<Rightarrow> mgr))"

text \<open>
  \<open>scrollToMessage(index)\<close>. Every cached record holds its element, so the lookup alone
  decides the guard. The timeout set at the end is counted in \<open>highlightTimers\<close>.
\<close>

definition scrollToMessage ::
  "sidebarManager \<Rightarrow> messageExtractor \<Rightarrow> browser \<Rightarrow> jsnumber \<Rightarrow> sidebarManager \<times> browser" where
  "scrollToMessage mgr ex br idx =
     (case getMessageByIndex ex idx of
        None \<Rightarrow> (mgr, br\<lparr>console := console br @ [WarnMessageNotFound idx]\<rparr>)
      | Some message \<Rightarrow>
          (let cleared = (case highlightedElement mgr of
                            Some h \<Rightarrow> highlighted br - {h}
                          | None \<Rightarrow> highlighted br);
               br' = br\<lparr>highlighted := insert (userElement message) cleared,
                        scrolledTo := Some (userElement message),
                        highlightTimers := highlightTimers br + 1\<rparr>;
               mgr' = updateActiveItem (mgr\<lparr>highlightedElement := Some (userElement message)\<rparr>) idx
           in (mgr', br')))"

text \<open>The callback of the timeout, run 3 seconds later.\<close>

definition highlightTimeout :: "sidebarManager \<Rightarrow> browser \<Rightarrow> sidebarManager \<times> browser" where
  "highlightTimeout mgr br =
     (case highlightedElement mgr of
        Some h \<Rightarrow>
          (mgr\<lparr>highlightedElement := None\<rparr>,
           br\<lparr>highlighted := highlighted br - {h}, highlightTimers := highlightTimers br - 1\<rparr>)
      | None \<Rightarrow> (mgr, br\<lparr>highlightTimers := highlightTimers br - 1\<rparr>))"

text \<open>
  \<open>toggleSidebar\<close>: nothing happens before the sidebar exists; otherwise the flag is
  flipped, the class and the icon follow it, and the flag is written to
  \<open>chrome.storage.local\<close> under \<open>sidebarVisible\<close>.
\<close>

definition toggleSidebar :: "sidebarManager \<Rightarrow> browser \<Rightarrow> sidebarManager \<times> browser" where
  "toggleSidebar mgr br =
     (case sidebarElement mgr of
        None \<Rightarrow> (mgr, br)
      | Some sb \<Rightarrow>
          (let v = \<not> isVisible mgr;
               sb' = sb\<lparr>collapsed := \<not> v, toggleIcon := (if v then [0x2212] else js ''+'')\<rparr>
           in (mgr\<lparr>sidebarElement := Some sb', isVisible := v\<rparr>,
               br\<lparr>storage := (storage br)(js ''sidebarVisible'' \<mapsto> v)\<rparr>)))"

text \<open>
  \<open>show\<close> (here \<open>show_sidebar\<close>) builds the sidebar if it is missing, sets the flag
  and removes the class \<open>collapsed\<close>; \<open>hide\<close> does nothing before the sidebar exists
  and otherwise clears the flag and adds the class. Neither calls
  \<open>chrome.storage.local.set\<close>.
\<close>

definition show_sidebar :: "sidebarManager \<Rightarrow> browser \<Rightarrow> sidebarManager \<times> browser" where
  "show_sidebar mgr br =
     (case createSidebar mgr br of
        (sb, mgr', br') \<Rightarrow>
          (mgr'\<lparr>isVisible := True, sidebarElement := Some (sb\<lparr>collapsed := False\<rparr>)\<rparr>, br'))"

definition hide :: "sidebarManager \<Rightarrow> browser \<Rightarrow> sidebarManager \<times> browser" where
  "hide mgr br =
     (case sidebarElement mgr of
        None \<Rightarrow> (mgr, br)
      | Some sb \<Rightarrow> (mgr\<lparr>isVisible := False, sidebarElement := Some (sb\<lparr>collapsed := True\<rparr>)\<rparr>, br))"

section \<open>Example states\<close>

text \<open>
  A detector that has loaded the built-in configuration and run \<open>detectPlatform\<close> on
  the given hostname.
\<close>

definition detectorAt :: "jsstring \<Rightarrow> platformDetector" where
  "detectorAt host =
     snd (detectPlatform host (newPlatformDetector\<lparr>platformsConfig := Some getDefaultPlatformsConfig\<rparr>))"

text \<open>
  A page whose elements \<open>0, 1, ...\<close> carry the given texts, all match the selector
  \<open>sel\<close> and no other, and have no descendants; the browser accepts every selector.
\<close>

definition pageOf :: "jsstring \<Rightarrow> jsstring list \<Rightarrow> dom" where
  "pageOf sel texts =
     \<lparr>allElements = [0..<length texts],
      descendants = (\<lambda>e. []),
      textContent = (\<lambda>e. if e < length texts then texts ! e else []),
      validSelector = (\<lambda>s. True),
      matches = (\<lambda>s e. s = sel)\<rparr>"

definition emptyBrowser :: browser where
  "emptyBrowser =
     \<lparr>bodySidebars = 0, highlighted = {}, scrolledTo = None, storage = Map.empty,
      console = [], highlightTimers = 0\<rparr>"

text \<open>The ChatGPT entry of the built-in configuration, as detected.\<close>

definition chatgptUser :: jsstring where
  "chatgptUser = attr ''role'' ''user''"

definition chatgptPlatform :: platform where
  "chatgptPlatform =
     \<lparr>name = js ''ChatGPT'', urls = [js ''chat.openai.com'', js ''chatgpt.com''],
      selectors = \<lparr>userMessage = chatgptUser,
        assistantMessage = attr ''role'' ''assistant'',
        messageContent = Some (SelString (js ''div:first-child'')),
        scrollContainer = js ''main'', fallbackUserMessage = None\<rparr>,
      key = js ''chatgpt''\<rparr>"

text \<open>An extractor whose cache holds the two records of an earlier pass.\<close>

definition cachedTwo :: messageExtractor where
  "cachedTwo =
     \<lparr>messages =
        [\<lparr>index = 0, userText = js ''first'', userElement = 0, timestamp = 1000,
          preview = js ''first''\<rparr>,
         \<lparr>index = 1, userText = js ''second'', userElement = 1, timestamp = 1000,
          preview = js ''second''\<rparr>],
      lastExtractTime = 1000\<rparr>"

text \<open>The sidebar, the manager and the browser right after the first \<open>createSidebar\<close>.\<close>

definition builtSidebar :: sidebar where
  "builtSidebar = sidebarTemplate\<lparr>toggleListeners := 1, listListeners := 1\<rparr>"

definition builtManager :: sidebarManager where
  "builtManager = \<lparr>sidebarElement = Some builtSidebar, isVisible = True, highlightedElement = None\<rparr>"

definition builtBrowser :: browser where
  "builtBrowser = emptyBrowser\<lparr>bodySidebars := 1\<rparr>"

text \<open>
  A DeepSeek page: three \<open>.ds-message\<close> containers 0, 2 and 4; the first and the last
  hold a \<open>.fbb737a4\<close> node (1 and 5) and are user messages, the second is an answer.
\<close>

definition deepseekPage :: dom where
  "deepseekPage =
     \<lparr>allElements = [0, 1, 2, 3, 4, 5],
      descendants = (\<lambda>e. if e = 0 then [1] else if e = 2 then [3] else if e = 4 then [5] else []),
      textContent = (\<lambda>e. if e = 0 \<or> e = 1 then js '' hi '' else if e = 2 \<or> e = 3 then js ''answer''
                          else if e = 4 \<or> e = 5 then js ''bye'' else []),
      validSelector = (\<lambda>s. True),
      matches = (\<lambda>s e. (s = js ''.ds-message'' \<and> (e = 0 \<or> e = 2 \<or> e = 4)) \<or>
                         (s = js ''.fbb737a4'' \<and> (e = 1 \<or> e = 5)) \<or>
                         (s = js ''.ds-message .fbb737a4'' \<and> (e = 1 \<or> e = 5)))\<rparr>"

text \<open>
  A message of 84 code units with inline code in backticks, a whitespace run and a tab.
\<close>

definition longQuestion :: jsstring where
  "longQuestion =
     js ''Explain `foo` and   `bar` in'' @ [0x9] @
     js ''this code, then tell me why the loop never ends, please''"

section \<open>Properties of \<open>getPreview\<close>\<close>

lemma js_dots: "js ''...'' = [0x2E, 0x2E, 0x2E]"
  by (simp add: js_def)

lemma set_trim_subset: "set (trim s) \<subseteq> set s"
proof -
  have "set (trim s) \<subseteq> set (dropWhile isWhiteSpace s)"
    unfolding trim_def using set_dropWhileD by fastforce
  also have "\<dots> \<subseteq> set s" using set_dropWhileD by fastforce
  finally show ?thesis .
qed

lemma length_slice0_60: "60 < length s \<Longrightarrow> slice0 s 60 = take 60 s"
  by (simp add: slice0_def Let_def min_def)

lemma set_slice0_subset: "set (slice0 s e) \<subseteq> set s"
  by (simp add: slice0_def Let_def set_take_subset)

lemma length_getPreview_60: "length (getPreview text 60) \<le> 63"
  by (simp add: getPreview_def Let_def length_slice0_60 js_dots)

lemma set_getPreview_subset:
  "set (getPreview text len) \<subseteq> set (removeBackticks (replaceWhitespaceRuns text)) \<union> {0x2E}"
proof -
  let ?n = "trim (removeBackticks (replaceWhitespaceRuns text))"
  have "set (getPreview text len) \<subseteq> set ?n \<union> {0x2E}"
    using set_slice0_subset [of ?n len] by (auto simp: getPreview_def Let_def js_dots)
  then show ?thesis using set_trim_subset by fastforce
qed

lemma backtick_notin_getPreview: "0x60 \<notin> set (getPreview text len)"
proof -
  have "(0x60::jschar) \<notin> set (removeBackticks (replaceWhitespaceRuns text)) \<union> {0x2E}"
    by (simp add: removeBackticks_def)
  then show ?thesis using set_getPreview_subset by blast
qed

lemma set_replaceWhitespaceRuns:
  "c \<in> set (replaceWhitespaceRuns s) \<Longrightarrow> (c \<in> set s \<and> \<not> isWhiteSpace c) \<or> c = 0x20"
proof (induction s rule: replaceWhitespaceRuns.induct)
  case 1
  then show ?case by simp
next
  case (2 d ds)
  then show ?case by (auto split: if_splits dest: set_dropWhileD)
qed

lemma isWhiteSpace_dot: "\<not> isWhiteSpace 0x2E"
  by (simp add: isWhiteSpace_def)

lemma whitespace_getPreview_space:
  assumes "c \<in> set (getPreview text len)" "isWhiteSpace c"
  shows "c = 0x20"
proof -
  from assms(1) set_getPreview_subset
  have "c \<in> set (removeBackticks (replaceWhitespaceRuns text)) \<or> c = 0x2E" by blast
  with assms(2) isWhiteSpace_dot have "c \<in> set (replaceWhitespaceRuns text)"
    by (auto simp: removeBackticks_def)
  with assms(2) set_replaceWhitespaceRuns show ?thesis by blast
qed

lemma wsCollapsed_Cons_nonws: "\<not> isWhiteSpace c \<Longrightarrow> wsCollapsed (c # xs) = wsCollapsed xs"
  by (cases xs) auto

lemma replaceWhitespaceRuns_nonws_Cons:
  "\<not> isWhiteSpace c \<Longrightarrow> replaceWhitespaceRuns (c # cs) = c # replaceWhitespaceRuns cs"
  by simp

lemma wsCollapsed_replaceWhitespaceRuns: "wsCollapsed (replaceWhitespaceRuns s)"
proof (induction s rule: replaceWhitespaceRuns.induct)
  case 1
  then show ?case by simp
next
  case (2 c cs)
  show ?case
  proof (cases "isWhiteSpace c")
    case False
    with 2 show ?thesis by (simp add: wsCollapsed_Cons_nonws)
  next
    case True
    define ys where "ys = dropWhile isWhiteSpace cs"
    from True 2 have ih: "wsCollapsed (replaceWhitespaceRuns ys)" by (simp add: ys_def)
    from True have eq: "replaceWhitespaceRuns (c # cs) = 0x20 # replaceWhitespaceRuns ys"
      by (simp add: ys_def)
    show ?thesis
    proof (cases ys)
      case Nil
      then have "replaceWhitespaceRuns ys = []" by simp
      then show ?thesis unfolding eq by simp
    next
      case (Cons y ys')
      then have nonws: "\<not> isWhiteSpace y"
        using hd_dropWhile [of isWhiteSpace cs] by (simp add: ys_def)
      with Cons have "replaceWhitespaceRuns ys = y # replaceWhitespaceRuns ys'" by simp
      with ih nonws show ?thesis unfolding eq by simp
    qed
  qed
qed

lemma wsCollapsed_nonws: "\<forall>c\<in>set ys. \<not> isWhiteSpace c \<Longrightarrow> wsCollapsed ys"
  by (induction ys) (auto simp: wsCollapsed_Cons_nonws)

lemma wsCollapsed_append_left: "wsCollapsed (xs @ ys) \<Longrightarrow> wsCollapsed xs"
proof (induction xs rule: wsCollapsed.induct)
  case 1
  then show ?case by simp
next
  case (2 c)
  then show ?case by (cases ys) (auto split: if_splits)
next
  case (3 a b cs)
  then show ?case by (auto split: if_splits)
qed

lemma wsCollapsed_tl: "wsCollapsed (x # xs) \<Longrightarrow> wsCollapsed xs"
  by (cases xs) auto

lemma wsCollapsed_append_right: "wsCollapsed (xs @ ys) \<Longrightarrow> wsCollapsed ys"
  by (induction xs) (auto dest: wsCollapsed_tl)

lemma wsCollapsed_append_nonws:
  "wsCollapsed xs \<Longrightarrow> \<forall>c\<in>set ys. \<not> isWhiteSpace c \<Longrightarrow> wsCollapsed (xs @ ys)"
proof (induction xs rule: wsCollapsed.induct)
  case 1
  then show ?case by (simp add: wsCollapsed_nonws)
next
  case (2 c)
  then show ?case by (cases ys) (auto simp: wsCollapsed_Cons_nonws wsCollapsed_nonws split: if_splits)
next
  case (3 a b cs)
  then show ?case by (auto split: if_splits)
qed

lemma wsCollapsed_dropWhile: "wsCollapsed xs \<Longrightarrow> wsCollapsed (dropWhile P xs)"
  using wsCollapsed_append_right [of "takeWhile P xs" "dropWhile P xs"] by simp

lemma wsCollapsed_rev_dropWhile_rev: "wsCollapsed xs \<Longrightarrow> wsCollapsed (rev (dropWhile P (rev xs)))"
proof -
  have "xs = rev (dropWhile P (rev xs)) @ rev (takeWhile P (rev xs))"
    by (metis rev_append rev_rev_ident takeWhile_dropWhile_id)
  then show "wsCollapsed xs \<Longrightarrow> wsCollapsed (rev (dropWhile P (rev xs)))"
    using wsCollapsed_append_left by metis
qed

lemma wsCollapsed_trim: "wsCollapsed xs \<Longrightarrow> wsCollapsed (trim xs)"
  unfolding trim_def by (intro wsCollapsed_rev_dropWhile_rev wsCollapsed_dropWhile)

lemma wsCollapsed_take: "wsCollapsed xs \<Longrightarrow> wsCollapsed (take n xs)"
  using wsCollapsed_append_left [of "take n xs" "drop n xs"] by simp

lemma isWhiteSpace_space: "isWhiteSpace 0x20"
  by (simp add: isWhiteSpace_def)

lemma isWhiteSpace_backtick: "\<not> isWhiteSpace 0x60"
  by (simp add: isWhiteSpace_def)

lemma replaceWhitespaceRuns_prefix_nonws:
  "replaceWhitespaceRuns ys = bs @ 0x20 # c \<Longrightarrow> \<forall>b\<in>set bs. \<not> isWhiteSpace b \<Longrightarrow>
   \<exists>w c'. ys = bs @ w # c' \<and> isWhiteSpace w"
proof (induction bs arbitrary: ys)
  case Nil
  then show ?case
    by (cases ys) (auto simp: isWhiteSpace_space split: if_splits)
next
  case (Cons b bs)
  from Cons.prems have b: "\<not> isWhiteSpace b" by simp
  show ?case
  proof (cases ys)
    case Nil
    with Cons.prems show ?thesis by simp
  next
    case (Cons y ys')
    show ?thesis
    proof (cases "isWhiteSpace y")
      case True
      with Cons Cons.prems(1) have "b = 0x20" by simp
      with b isWhiteSpace_space show ?thesis by simp
    next
      case False
      with Cons Cons.prems(1) have "y = b" "replaceWhitespaceRuns ys' = bs @ 0x20 # c" by simp_all
      moreover from Cons.prems(2) have "\<forall>b\<in>set bs. \<not> isWhiteSpace b" by simp
      ultimately obtain w c' where "ys' = bs @ w # c'" "isWhiteSpace w"
        using Cons.IH by blast
      with \<open>y = b\<close> Cons show ?thesis by auto
    qed
  qed
qed

lemma flanked_replaceWhitespaceRuns:
  "replaceWhitespaceRuns t = a @ 0x20 # bs @ 0x20 # c \<Longrightarrow> bs \<noteq> [] \<Longrightarrow> set bs \<subseteq> {0x60} \<Longrightarrow>
   \<exists>a' w1 w2 c'. t = a' @ w1 # bs @ w2 # c' \<and> isWhiteSpace w1 \<and> isWhiteSpace w2"
proof (induction t arbitrary: a rule: replaceWhitespaceRuns.induct)
  case 1
  then show ?case by simp
next
  case (2 x xs)
  from "2.prems"(3) have bsn: "\<forall>b\<in>set bs. \<not> isWhiteSpace b"
    using isWhiteSpace_backtick by auto
  show ?case
  proof (cases "isWhiteSpace x")
    case False
    with "2.prems"(1) have r: "x # replaceWhitespaceRuns xs = a @ 0x20 # bs @ 0x20 # c" by simp
    from r False isWhiteSpace_space obtain a0 where a: "a = x # a0"
      by (cases a) auto
    with r have "replaceWhitespaceRuns xs = a0 @ 0x20 # bs @ 0x20 # c" by simp
    from "2.IH"(2) [OF False this "2.prems"(2,3)] obtain a' w1 w2 c' where
      "xs = a' @ w1 # bs @ w2 # c'" "isWhiteSpace w1" "isWhiteSpace w2" by blast
    then have "x # xs = (x # a') @ w1 # bs @ w2 # c'" by simp
    with \<open>isWhiteSpace w1\<close> \<open>isWhiteSpace w2\<close> show ?thesis by blast
  next
    case True
    define ys where "ys = dropWhile isWhiteSpace xs"
    define ws where "ws = takeWhile isWhiteSpace xs"
    have xs: "xs = ws @ ys" by (simp add: ws_def ys_def)
    have wsw: "\<forall>w\<in>set ws. isWhiteSpace w" by (auto simp: ws_def dest: set_takeWhileD)
    from True "2.prems"(1) have r: "0x20 # replaceWhitespaceRuns ys = a @ 0x20 # bs @ 0x20 # c"
      by (simp add: ys_def)
    show ?thesis
    proof (cases a)
      case Nil
      with r have "replaceWhitespaceRuns ys = bs @ 0x20 # c" by simp
      from replaceWhitespaceRuns_prefix_nonws [OF this bsn] obtain w c' where
        y: "ys = bs @ w # c'" "isWhiteSpace w" by blast
      have "x # ws \<noteq> []" by simp
      then obtain pre w1 where p: "x # ws = pre @ [w1]"
        by (metis rev_exhaust)
      then have "w1 \<in> set (x # ws)" by (metis in_set_conv_decomp)
      with True wsw have "isWhiteSpace w1" by auto
      have "x # xs = (x # ws) @ ys" by (simp add: xs)
      then have "x # xs = pre @ w1 # bs @ w # c'" by (simp only: p y) simp
      with \<open>isWhiteSpace w1\<close> y(2) show ?thesis by blast
    next
      case (Cons a1 a0)
      with r have "replaceWhitespaceRuns ys = a0 @ 0x20 # bs @ 0x20 # c" by simp
      from "2.IH"(1) [OF True this [unfolded ys_def] "2.prems"(2,3)] obtain a' w1 w2 c' where
        "ys = a' @ w1 # bs @ w2 # c'" "isWhiteSpace w1" "isWhiteSpace w2"
        unfolding ys_def by blast
      then have "x # xs = (x # ws @ a') @ w1 # bs @ w2 # c'" by (simp add: xs)
      with \<open>isWhiteSpace w1\<close> \<open>isWhiteSpace w2\<close> show ?thesis by blast
    qed
  qed
qed

lemma wsCollapsed_removeBackticks:
  assumes "wsCollapsed r" "\<forall>c\<in>set r. isWhiteSpace c \<longrightarrow> c = 0x20"
    and "\<not> wsCollapsed (removeBackticks r)"
  shows "\<exists>a bs c. r = a @ 0x20 # bs @ 0x20 # c \<and> bs \<noteq> [] \<and> set bs \<subseteq> {0x60}"
  using assms
proof (induction r)
  case Nil
  then show ?case by (simp add: removeBackticks_def)
next
  case (Cons x r)
  have cr: "wsCollapsed r" using Cons.prems(1) wsCollapsed_tl by blast
  have sr: "\<forall>c\<in>set r. isWhiteSpace c \<longrightarrow> c = 0x20" using Cons.prems(2) by simp
  show ?case
  proof (cases "wsCollapsed (removeBackticks r)")
    case False
    from Cons.IH [OF cr sr False] obtain a bs c where
      "r = a @ 0x20 # bs @ 0x20 # c" "bs \<noteq> []" "set bs \<subseteq> {0x60}" by blast
    then have "x # r = (x # a) @ 0x20 # bs @ 0x20 # c \<and> bs \<noteq> [] \<and> set bs \<subseteq> {0x60}" by simp
    then show ?thesis by blast
  next
    case True
    with Cons.prems(3) have xb: "x \<noteq> 0x60" by (auto simp: removeBackticks_def)
    then have f: "removeBackticks (x # r) = x # removeBackticks r" by (simp add: removeBackticks_def)
    have xw: "isWhiteSpace x"
      using Cons.prems(3) True unfolding f by (metis wsCollapsed_Cons_nonws)
    then have x: "x = 0x20" using Cons.prems(2) by simp
    obtain y ys where fy: "removeBackticks r = y # ys" "isWhiteSpace y"
      using Cons.prems(3) True xw x unfolding f
      by (cases "removeBackticks r") auto
    then have "y \<in> set (filter (\<lambda>c. c \<noteq> 0x60) r)" by (simp add: removeBackticks_def)
    then have "y \<in> set r" by simp
    with sr fy(2) have y: "y = 0x20" by simp
    from fy(1) obtain us vs where uv: "r = us @ y # vs" "\<forall>u\<in>set us. \<not> u \<noteq> 0x60"
      unfolding removeBackticks_def filter_eq_Cons_iff by blast
    have "us \<noteq> []"
    proof
      assume "us = []"
      with uv y have "r = 0x20 # vs" by simp
      with Cons.prems(1) xw isWhiteSpace_space show False by simp
    qed
    moreover from uv(2) have "set us \<subseteq> {0x60}" by auto
    moreover from uv(1) x y have "x # r = [] @ 0x20 # us @ 0x20 # vs" by simp
    ultimately show ?thesis by blast
  qed
qed

lemma whitespace_replaceWhitespaceRuns:
  "\<forall>c\<in>set (replaceWhitespaceRuns t). isWhiteSpace c \<longrightarrow> c = 0x20"
  using set_replaceWhitespaceRuns by blast

lemma wsCollapsed_getPreview_unflanked:
  assumes "\<not> (\<exists>a w1 bs w2 c. t = a @ w1 # bs @ w2 # c \<and> isWhiteSpace w1 \<and> isWhiteSpace w2 \<and>
                bs \<noteq> [] \<and> set bs \<subseteq> {0x60})"
  shows "wsCollapsed (getPreview t len)"
proof -
  let ?r = "replaceWhitespaceRuns t"
  have c: "wsCollapsed (removeBackticks ?r)"
  proof (rule ccontr)
    assume "\<not> wsCollapsed (removeBackticks ?r)"
    from wsCollapsed_removeBackticks [OF wsCollapsed_replaceWhitespaceRuns whitespace_replaceWhitespaceRuns this]
    obtain a bs c where "?r = a @ 0x20 # bs @ 0x20 # c" "bs \<noteq> []" "set bs \<subseteq> {0x60}" by blast
    from flanked_replaceWhitespaceRuns [OF this] this(2,3) assms show False by blast
  qed
  let ?n = "trim (removeBackticks ?r)"
  have n: "wsCollapsed ?n" using c by (rule wsCollapsed_trim)
  have "wsCollapsed (slice0 ?n len @ js ''...'')"
    unfolding slice0_def Let_def js_dots
    by (rule wsCollapsed_append_nonws) (simp_all add: n wsCollapsed_take isWhiteSpace_dot)
  with n show ?thesis by (simp add: getPreview_def Let_def)
qed

lemma flankedBackticks_iff:
  "flankedBackticks t \<longleftrightarrow>
     (\<exists>a w1 bs w2 c. t = a @ w1 # bs @ w2 # c \<and> isWhiteSpace w1 \<and> isWhiteSpace w2 \<and>
        bs \<noteq> [] \<and> set bs \<subseteq> {0x60})"
proof
  show "flankedBackticks t \<Longrightarrow>
     \<exists>a w1 bs w2 c. t = a @ w1 # bs @ w2 # c \<and> isWhiteSpace w1 \<and> isWhiteSpace w2 \<and>
        bs \<noteq> [] \<and> set bs \<subseteq> {0x60}"
  proof (induction t)
    case Nil
    then show ?case by simp
  next
    case (Cons w cs)
    show ?case
    proof (cases "isWhiteSpace w \<and> takeWhile (\<lambda>c. c = 0x60) cs \<noteq> [] \<and>
         (case dropWhile (\<lambda>c. c = 0x60) cs of [] \<Rightarrow> False | w2 # c \<Rightarrow> isWhiteSpace w2)")
      case True
      then obtain w2 c where d: "dropWhile (\<lambda>c. c = 0x60) cs = w2 # c" "isWhiteSpace w2"
        by (auto split: list.splits)
      define bs where "bs = takeWhile (\<lambda>c. c = 0x60) cs"
      have "cs = bs @ w2 # c" using takeWhile_dropWhile_id [of "\<lambda>c. c = 0x60" cs] d(1)
        by (simp add: bs_def)
      then have "w # cs = [] @ w # bs @ w2 # c" by simp
      moreover have "set bs \<subseteq> {0x60}" by (auto simp: bs_def dest: set_takeWhileD)
      moreover have "bs \<noteq> []" using True by (simp add: bs_def)
      ultimately show ?thesis using True d(2) by blast
    next
      case False
      with Cons.prems have "flankedBackticks cs" by (simp split: if_splits)
      from Cons.IH [OF this] obtain a w1 bs w2 c where
        h: "cs = a @ w1 # bs @ w2 # c" "isWhiteSpace w1" "isWhiteSpace w2" "bs \<noteq> []" "set bs \<subseteq> {0x60}"
        by blast
      then have "w # cs = (w # a) @ w1 # bs @ w2 # c" by simp
      with h show ?thesis by blast
    qed
  qed
next
  assume "\<exists>a w1 bs w2 c. t = a @ w1 # bs @ w2 # c \<and> isWhiteSpace w1 \<and> isWhiteSpace w2 \<and>
        bs \<noteq> [] \<and> set bs \<subseteq> {0x60}"
  then obtain a w1 bs w2 c where
    h: "t = a @ w1 # bs @ w2 # c" "isWhiteSpace w1" "isWhiteSpace w2" "bs \<noteq> []" "set bs \<subseteq> {0x60}"
    by blast
  have w2: "w2 \<noteq> 0x60" using h(3) isWhiteSpace_backtick by auto
  have all: "\<forall>b\<in>set bs. b = 0x60" using h(5) by auto
  have tk: "takeWhile (\<lambda>c. c = 0x60) (bs @ w2 # c) = bs"
    using all w2 by (simp add: takeWhile_append2)
  have dr: "dropWhile (\<lambda>c. c = 0x60) (bs @ w2 # c) = w2 # c"
    using all w2 by (simp add: dropWhile_append2)
  have "flankedBackticks (a @ w1 # bs @ w2 # c)"
  proof (induction a)
    case Nil
    show ?case using h(2,3,4) by (simp add: tk dr)
  next
    case (Cons x a)
    then show ?case by simp
  qed
  with h(1) show "flankedBackticks t" by simp
qed

text \<open>
  C7 (the code departs from the claim): \<open>getPreview\<close> collapses the whitespace runs
  first and deletes the backticks afterwards, so a backtick standing between two
  whitespace runs leaves two adjacent spaces in the preview: the result is not a
  string with all whitespace runs collapsed to single spaces. The same two steps in
  the other order give the collapsed text on this input.
\<close>

theorem getPreview_backtick_between_spaces:
  "getPreview (js ''a ` b'') 60 = js ''a  b'' \<and>
   \<not> wsCollapsed (getPreview (js ''a ` b'') 60) \<and>
   trim (replaceWhitespaceRuns (removeBackticks (js ''a ` b''))) = js ''a b''"
  by (simp add: getPreview_def Let_def js_def trim_def removeBackticks_def isWhiteSpace_def)

text \<open>
  X4: for every input string, \<open>getPreview(text, 60)\<close> returns a string of at most 63
  code units (60 plus the three-character ellipsis) that contains no backtick and whose
  only whitespace characters are plain spaces; all whitespace runs of the result are
  collapsed to single spaces unless the input holds a run of backticks standing directly
  between two whitespace characters.
\<close>

theorem getPreview_60_shape:
  "length (getPreview t 60) \<le> 63 \<and>
   0x60 \<notin> set (getPreview t 60) \<and>
   (\<forall>c\<in>set (getPreview t 60). isWhiteSpace c \<longrightarrow> c = 0x20) \<and>
   (\<not> (\<exists>a w1 bs w2 c. t = a @ w1 # bs @ w2 # c \<and> isWhiteSpace w1 \<and> isWhiteSpace w2 \<and>
          bs \<noteq> [] \<and> set bs \<subseteq> {0x60}) \<longrightarrow>
    wsCollapsed (getPreview t 60))"
  using length_getPreview_60 [of t] backtick_notin_getPreview [of t 60]
    whitespace_getPreview_space [of _ t 60] wsCollapsed_getPreview_unflanked [of t 60]
  by blast

lemma getPreview_longQuestion:
  "getPreview longQuestion 60 =
     js ''Explain foo and bar in this code, then tell me why the loop '' @ js ''...''"
  by (simp add: longQuestion_def getPreview_def Let_def slice0_def js_def trim_def
      removeBackticks_def isWhiteSpace_def)

lemma unflanked_longQuestion: "\<not> flankedBackticks longQuestion"
  by (simp add: longQuestion_def js_def isWhiteSpace_def)

theorem getPreview_60_shape_witness:
  "0x60 \<in> set longQuestion \<and> length longQuestion = 84 \<and>
   getPreview longQuestion 60 =
     js ''Explain foo and bar in this code, then tell me why the loop '' @ js ''...'' \<and>
   length (getPreview longQuestion 60) = 63 \<and>
   wsCollapsed (getPreview longQuestion 60) \<and>
   0x60 \<notin> set (getPreview longQuestion 60)"
proof -
  have h: "\<not> (\<exists>a w1 bs w2 c. longQuestion = a @ w1 # bs @ w2 # c \<and> isWhiteSpace w1 \<and>
              isWhiteSpace w2 \<and> bs \<noteq> [] \<and> set bs \<subseteq> {0x60})"
    unfolding flankedBackticks_iff [symmetric] by (rule unflanked_longQuestion)
  have b: "0x60 \<in> set longQuestion" "length longQuestion = 84"
    by (simp_all add: longQuestion_def js_def)
  have l: "length (getPreview longQuestion 60) = 63"
    unfolding getPreview_longQuestion by (simp add: js_def)
  from getPreview_60_shape [of longQuestion] h
  have "wsCollapsed (getPreview longQuestion 60)" "0x60 \<notin> set (getPreview longQuestion 60)"
    by blast+
  with b l getPreview_longQuestion show ?thesis by blast
qed

section \<open>Properties of \<open>escapeHtml\<close>\<close>

lemma entityOf_simps:
  "entityOf 0x26 = js ''&amp;''" "entityOf 0x3C = js ''&lt;''" "entityOf 0x3E = js ''&gt;''"
  "entityOf 0x22 = js ''&quot;''" "entityOf 0x27 = js ''&#039;''"
  by (simp_all add: entityOf_def htmlEntities_def)

lemma escapeHtml_append: "escapeHtml (xs @ ys) = escapeHtml xs @ escapeHtml ys"
  by (induction xs) auto

lemma escapeHtml_eq_concat:
  "escapeHtml t = concat (map (\<lambda>c. if isReserved c then entityOf c else [c]) t)"
  by (induction t) auto

lemma set_entityOf: "isReserved c \<Longrightarrow> set (entityOf c) \<inter> {0x3C, 0x3E, 0x22, 0x27} = {}"
  by (auto simp: isReserved_def entityOf_simps js_def)

lemma no_literal_escapeHtml: "set (escapeHtml t) \<inter> {0x3C, 0x3E, 0x22, 0x27} = {}"
proof (induction t)
  case Nil
  then show ?case by simp
next
  case (Cons c cs)
  show ?case
  proof (cases "isReserved c")
    case True
    with Cons set_entityOf [OF True] show ?thesis by (simp add: Int_Un_distrib2)
  next
    case False
    with Cons show ?thesis by (auto simp: isReserved_def)
  qed
qed

lemma decodeEntities_entity:
  "isReserved c \<Longrightarrow> decodeEntities (entityOf c @ rest) = map_option (Cons c) (decodeEntities rest)"
  by (auto simp: isReserved_def entityOf_simps js_def)

lemma decodeEntities_escapeHtml: "decodeEntities (escapeHtml t) = Some t"
proof (induction t)
  case Nil
  then show ?case by simp
next
  case (Cons c cs)
  show ?case
  proof (cases "isReserved c")
    case True
    with Cons show ?thesis by (simp add: decodeEntities_entity)
  next
    case False
    then have "c \<noteq> 0x26" by (auto simp: isReserved_def)
    with False Cons show ?thesis by simp
  qed
qed

text \<open>
  C4: for every input string, \<open>escapeHtml\<close> replaces each of the five reserved characters
  by its entity and copies every other code unit; the output holds no literal \<open><\<close>,
  \<open>>\<close>, double quote or single quote, and every \<open>&\<close> in it starts one of the five
  entities: decoding the entities gives the input back, so nothing is escaped twice and
  nothing is left literal.
\<close>

theorem escapeHtml_entity_encoded:
  "escapeHtml t =
     concat (map (\<lambda>c. if c = 0x26 then js ''&amp;'' else if c = 0x3C then js ''&lt;''
                       else if c = 0x3E then js ''&gt;'' else if c = 0x22 then js ''&quot;''
                       else if c = 0x27 then js ''&#039;'' else [c]) t) \<and>
   0x3C \<notin> set (escapeHtml t) \<and> 0x3E \<notin> set (escapeHtml t) \<and>
   0x22 \<notin> set (escapeHtml t) \<and> 0x27 \<notin> set (escapeHtml t) \<and>
   decodeEntities (escapeHtml t) = Some t"
proof -
  have "(\<lambda>c. if isReserved c then entityOf c else [c]) =
        (\<lambda>c. if c = 0x26 then js ''&amp;'' else if c = 0x3C then js ''&lt;''
              else if c = 0x3E then js ''&gt;'' else if c = 0x22 then js ''&quot;''
              else if c = 0x27 then js ''&#039;'' else [c])"
    by (rule ext) (auto simp: isReserved_def entityOf_simps)
  then have "escapeHtml t =
     concat (map (\<lambda>c. if c = 0x26 then js ''&amp;'' else if c = 0x3C then js ''&lt;''
                       else if c = 0x3E then js ''&gt;'' else if c = 0x22 then js ''&quot;''
                       else if c = 0x27 then js ''&#039;'' else [c]) t)"
    using escapeHtml_eq_concat [of t] by simp
  moreover have "0x3C \<notin> set (escapeHtml t)" "0x3E \<notin> set (escapeHtml t)"
    "0x22 \<notin> set (escapeHtml t)" "0x27 \<notin> set (escapeHtml t)"
    using no_literal_escapeHtml [of t] by auto
  ultimately show ?thesis using decodeEntities_escapeHtml [of t] by blast
qed

theorem escapeHtml_entity_encoded_witness:
  "escapeHtml (js ''<script>&'' @ [0x22, 0x27]) = js ''&lt;script&gt;&amp;&quot;&#039;'' \<and>
   decodeEntities (js ''&lt;script&gt;&amp;&quot;&#039;'') = Some (js ''<script>&'' @ [0x22, 0x27])"
proof -
  have v: "escapeHtml (js ''<script>&'' @ [0x22, 0x27]) = js ''&lt;script&gt;&amp;&quot;&#039;''"
    by (simp add: js_def isReserved_def entityOf_def htmlEntities_def)
  from escapeHtml_entity_encoded [of "js ''<script>&'' @ [0x22, 0x27]"]
  have "decodeEntities (escapeHtml (js ''<script>&'' @ [0x22, 0x27])) =
          Some (js ''<script>&'' @ [0x22, 0x27])"
    by blast
  with v show ?thesis by simp
qed

section \<open>Properties of \<open>detectPlatform\<close>\<close>

lemma includes_js_iff: "includes_js h p \<longleftrightarrow> (\<exists>a b. h = a @ p @ b)"
proof (induction h)
  case Nil
  then show ?case by auto
next
  case (Cons c cs)
  have here: "take (length p) (c # cs) = p \<longleftrightarrow> (\<exists>b. c # cs = p @ b)"
    by (metis append_eq_conv_conj append_take_drop_id)
  have later: "(\<exists>a b. cs = a @ p @ b) \<longleftrightarrow> (\<exists>a b. c # cs = (c # a) @ p @ b)"
    by simp
  have split: "(\<exists>a b. c # cs = a @ p @ b) \<longleftrightarrow>
      (\<exists>b. c # cs = p @ b) \<or> (\<exists>a b. c # cs = (c # a) @ p @ b)"
  proof
    assume "\<exists>a b. c # cs = a @ p @ b"
    then obtain a b where ab: "c # cs = a @ p @ b" by blast
    show "(\<exists>b. c # cs = p @ b) \<or> (\<exists>a b. c # cs = (c # a) @ p @ b)"
    proof (cases a)
      case Nil
      with ab show ?thesis by auto
    next
      case (Cons x xs)
      with ab show ?thesis by auto
    qed
  next
    assume "(\<exists>b. c # cs = p @ b) \<or> (\<exists>a b. c # cs = (c # a) @ p @ b)"
    then show "\<exists>a b. c # cs = a @ p @ b"
      by (metis append_Nil)
  qed
  show ?case
    using Cons.IH here later split by (simp del: append_Cons) 
qed

lemma anyUrlIncluded_iff: "anyUrlIncluded host us \<longleftrightarrow> (\<exists>u\<in>set us. includes_js host u)"
  by (induction us) auto

lemma scanPlatforms_None_iff:
  "scanPlatforms host entries = None \<longleftrightarrow> (\<forall>e\<in>set entries. \<not> anyUrlIncluded host (urls (snd e)))"
  by (induction host entries rule: scanPlatforms.induct) auto

lemma scanPlatforms_Some:
  "scanPlatforms host entries = Some p \<Longrightarrow>
     \<exists>before k pc after. entries = before @ (k, pc) # after \<and>
       (\<forall>e\<in>set before. \<not> anyUrlIncluded host (urls (snd e))) \<and>
       anyUrlIncluded host (urls pc) \<and>
       p = \<lparr>name = name pc, urls = urls pc, selectors = selectors pc, key = k\<rparr>"
proof (induction entries)
  case Nil
  then show ?case by simp
next
  case (Cons e es)
  obtain k pc where e: "e = (k, pc)" by (cases e)
  show ?case
  proof (cases "anyUrlIncluded host (urls pc)")
    case True
    with Cons.prems e
    have pv: "p = \<lparr>name = name pc, urls = urls pc, selectors = selectors pc, key = k\<rparr>" by simp
    show ?thesis
      apply (rule exI [of _ "[]"], rule exI [of _ k], rule exI [of _ pc], rule exI [of _ es])
      using True e pv by simp
  next
    case False
    with Cons.prems e have "scanPlatforms host es = Some p" by simp
    from Cons.IH [OF this] obtain before k' pc' after where
      h: "es = before @ (k', pc') # after"
         "\<forall>e\<in>set before. \<not> anyUrlIncluded host (urls (snd e))"
         "anyUrlIncluded host (urls pc')"
         "p = \<lparr>name = name pc', urls = urls pc', selectors = selectors pc', key = k'\<rparr>"
      by blast
    show ?thesis
      apply (rule exI [of _ "e # before"])
      apply (rule exI [of _ k'], rule exI [of _ pc'], rule exI [of _ after])
      using h False e by simp
  qed
qed

text \<open>
  C5: \<open>detectPlatform\<close> scans the platform definitions in order and returns the first
  one of whose URL patterns is a substring of the hostname, with that platform's key,
  storing it as the current platform; when no pattern of any definition is a substring
  of the hostname (or no configuration is loaded) it returns \<open>null\<close> and changes
  nothing.
\<close>

theorem detectPlatform_first_match:
  "case platformsConfig det of
     None \<Rightarrow> detectPlatform host det = (None, det)
   | Some entries \<Rightarrow>
       (\<exists>before k pc after.
          entries = before @ (k, pc) # after \<and>
          (\<forall>e\<in>set before. \<forall>u\<in>set (urls (snd e)). \<not> (\<exists>a b. host = a @ u @ b)) \<and>
          (\<exists>u\<in>set (urls pc). \<exists>a b. host = a @ u @ b) \<and>
          detectPlatform host det =
            (Some \<lparr>name = name pc, urls = urls pc, selectors = selectors pc, key = k\<rparr>,
             det\<lparr>currentPlatform :=
               Some \<lparr>name = name pc, urls = urls pc, selectors = selectors pc, key = k\<rparr>\<rparr>))
       \<or> ((\<forall>e\<in>set entries. \<forall>u\<in>set (urls (snd e)). \<not> (\<exists>a b. host = a @ u @ b)) \<and>
          detectPlatform host det = (None, det))"
proof (cases "platformsConfig det")
  case None
  then show ?thesis by (simp add: detectPlatform_def)
next
  case (Some entries)
  show ?thesis
  proof (cases "scanPlatforms host entries")
    case None
    then have "\<forall>e\<in>set entries. \<forall>u\<in>set (urls (snd e)). \<not> (\<exists>a b. host = a @ u @ b)"
      by (simp add: scanPlatforms_None_iff anyUrlIncluded_iff includes_js_iff)
    with None Some show ?thesis by (simp add: detectPlatform_def)
  next
    case (Some p)
    from scanPlatforms_Some [OF this] obtain before k pc after where
      h: "entries = before @ (k, pc) # after"
         "\<forall>e\<in>set before. \<not> anyUrlIncluded host (urls (snd e))"
         "anyUrlIncluded host (urls pc)"
         "p = \<lparr>name = name pc, urls = urls pc, selectors = selectors pc, key = k\<rparr>"
      by blast
    have d: "detectPlatform host det = (Some p, det\<lparr>currentPlatform := Some p\<rparr>)"
      using Some \<open>platformsConfig det = Some entries\<close> by (simp add: detectPlatform_def)
    have "\<exists>before k pc after.
          entries = before @ (k, pc) # after \<and>
          (\<forall>e\<in>set before. \<forall>u\<in>set (urls (snd e)). \<not> (\<exists>a b. host = a @ u @ b)) \<and>
          (\<exists>u\<in>set (urls pc). \<exists>a b. host = a @ u @ b) \<and>
          detectPlatform host det =
            (Some \<lparr>name = name pc, urls = urls pc, selectors = selectors pc, key = k\<rparr>,
             det\<lparr>currentPlatform :=
               Some \<lparr>name = name pc, urls = urls pc, selectors = selectors pc, key = k\<rparr>\<rparr>)"
      apply (rule exI [of _ before], rule exI [of _ k], rule exI [of _ pc], rule exI [of _ after])
      using h d by (simp add: anyUrlIncluded_iff includes_js_iff)
    with \<open>platformsConfig det = Some entries\<close> show ?thesis by simp
  qed
qed

lemma detectorAt_chatgpt:
  "getPlatformConfig (detectorAt (js ''chatgpt.com'')) = Some chatgptPlatform"
  by (simp add: detectorAt_def detectPlatform_def newPlatformDetector_def getPlatformConfig_def
      getDefaultPlatformsConfig_def chatgptPlatform_def chatgptUser_def js_def)

lemma key_chatgpt: "key chatgptPlatform \<noteq> js ''deepseek''"
  by (simp add: chatgptPlatform_def js_def)

lemma userSelectors_chatgpt: "userSelectors chatgptPlatform = [chatgptUser]"
  by (simp add: chatgptPlatform_def userSelectors_def)

lemma content_chatgpt:
  "messageContent (selectors chatgptPlatform) = Some (SelString (js ''div:first-child''))"
  "userMessage (selectors chatgptPlatform) = chatgptUser"
  by (simp_all add: chatgptPlatform_def)

lemma content_ne: "js ''div:first-child'' \<noteq> chatgptUser" "js ''div:first-child'' \<noteq> []"
  by (simp_all add: js_def attr_def chatgptUser_def)

lemma extractText_pageOf:
  "e < length texts \<Longrightarrow>
   extractText (pageOf chatgptUser texts) e (Some (SelString (js ''div:first-child''))) =
     Inr (trim (texts ! e))"
  by (simp add: extractText_def pageOf_def querySelectorAll_def content_ne)

theorem detectPlatform_first_match_witness:
  "fst (detectPlatform (js ''chatgpt.com'')
          (newPlatformDetector\<lparr>platformsConfig := Some getDefaultPlatformsConfig\<rparr>)) =
     Some chatgptPlatform \<and>
   map_option key (fst (detectPlatform (js ''doubao.com.chat.deepseek.com'')
          (newPlatformDetector\<lparr>platformsConfig := Some getDefaultPlatformsConfig\<rparr>))) =
     Some (js ''deepseek'') \<and>
   fst (detectPlatform (js ''example.org'')
          (newPlatformDetector\<lparr>platformsConfig := Some getDefaultPlatformsConfig\<rparr>)) = None \<and>
   fst (detectPlatform (js ''chatgpt.com'') newPlatformDetector) = None"
proof -
  have a: "fst (detectPlatform (js ''chatgpt.com'')
          (newPlatformDetector\<lparr>platformsConfig := Some getDefaultPlatformsConfig\<rparr>)) =
     Some chatgptPlatform"
    using detectorAt_chatgpt
    by (simp add: detectorAt_def detectPlatform_def newPlatformDetector_def getPlatformConfig_def
      getDefaultPlatformsConfig_def chatgptPlatform_def chatgptUser_def js_def)
  have b: "map_option key (fst (detectPlatform (js ''doubao.com.chat.deepseek.com'')
          (newPlatformDetector\<lparr>platformsConfig := Some getDefaultPlatformsConfig\<rparr>))) =
     Some (js ''deepseek'')"
    by (simp add: detectPlatform_def newPlatformDetector_def getDefaultPlatformsConfig_def js_def)
  have c: "fst (detectPlatform (js ''example.org'')
          (newPlatformDetector\<lparr>platformsConfig := Some getDefaultPlatformsConfig\<rparr>)) = None"
    by (simp add: detectPlatform_def newPlatformDetector_def getDefaultPlatformsConfig_def js_def)
  have n: "platformsConfig newPlatformDetector = None"
    by (simp add: newPlatformDetector_def)
  from detectPlatform_first_match [where det = newPlatformDetector and host = "js ''chatgpt.com''"] n
  have d: "fst (detectPlatform (js ''chatgpt.com'') newPlatformDetector) = None"
    by simp
  from a b c d show ?thesis by blast
qed

section \<open>Properties of the extractor\<close>

lemma findElementsArray_None_iff:
  "findElementsArray d sels = None \<longleftrightarrow>
     (\<forall>sel\<in>set sels. validSelector d sel \<longrightarrow> filter (matches d sel) (allElements d) = [])"
  by (induction sels) (auto simp: querySelectorAll_def)

lemma extractMessages_generic:
  assumes "getPlatformConfig det = Some p" "key p \<noteq> js ''deepseek''"
    and "findElementsArray d (userSelectors p) = Some els" "els \<noteq> []"
    and "extractEach d now (messageContent (selectors p)) 0 els [] = Inr msgs"
  shows "extractMessages d now det ex = Inr (msgs, ex\<lparr>messages := msgs, lastExtractTime := now\<rparr>)"
  using assms by (simp add: extractMessages_def)

lemma extractMessages_no_elements:
  assumes "getPlatformConfig det = Some p" "key p \<noteq> js ''deepseek''"
    and "findElementsArray d (userSelectors p) = None"
  shows "extractMessages d now det ex = Inr ([], ex)"
  using assms by (simp add: extractMessages_def)

text \<open>
  C10: when no platform is detected, or when on the generic path no element matches any
  of the user-message selectors, \<open>extractMessages\<close> returns the empty list and leaves
  the extractor, with its cached messages and its last-extraction timestamp, as it was.
\<close>

theorem extractMessages_nothing_found:
  assumes "getPlatformConfig det = None \<or>
           (\<exists>p. getPlatformConfig det = Some p \<and> key p \<noteq> js ''deepseek'' \<and>
                (\<forall>sel\<in>set (userSelectors p).
                    validSelector d sel \<longrightarrow> filter (matches d sel) (allElements d) = []))"
  shows "extractMessages d now det ex = Inr ([], ex)"
  using assms
proof
  assume "getPlatformConfig det = None"
  then show ?thesis by (simp add: extractMessages_def)
next
  assume "\<exists>p. getPlatformConfig det = Some p \<and> key p \<noteq> js ''deepseek'' \<and>
                (\<forall>sel\<in>set (userSelectors p).
                    validSelector d sel \<longrightarrow> filter (matches d sel) (allElements d) = [])"
  then obtain p where p: "getPlatformConfig det = Some p" "key p \<noteq> js ''deepseek''"
    and none: "\<forall>sel\<in>set (userSelectors p).
                    validSelector d sel \<longrightarrow> filter (matches d sel) (allElements d) = []"
    by blast
  from none have "findElementsArray d (userSelectors p) = None"
    by (simp only: findElementsArray_None_iff)
  with p show ?thesis by (simp add: extractMessages_def)
qed

theorem extractMessages_nothing_found_witness:
  "extractMessages (pageOf chatgptUser [js ''x'']) 5000 newPlatformDetector cachedTwo = Inr ([], cachedTwo) \<and>
   extractMessages (pageOf chatgptUser []) 5000 (detectorAt (js ''chatgpt.com'')) cachedTwo = Inr ([], cachedTwo)"
proof -
  have a: "getPlatformConfig newPlatformDetector = None"
    by (simp add: getPlatformConfig_def newPlatformDetector_def)
  have b: "\<exists>p. getPlatformConfig (detectorAt (js ''chatgpt.com'')) = Some p \<and> key p \<noteq> js ''deepseek'' \<and>
                (\<forall>sel\<in>set (userSelectors p).
                    validSelector (pageOf chatgptUser []) sel \<longrightarrow>
                    filter (matches (pageOf chatgptUser []) sel) (allElements (pageOf chatgptUser [])) = [])"
    by (rule exI [of _ chatgptPlatform])
       (simp add: detectorAt_chatgpt key_chatgpt userSelectors_chatgpt pageOf_def)
  show ?thesis
    using extractMessages_nothing_found [OF disjI1, OF a, of "pageOf chatgptUser [js ''x'']" 5000 cachedTwo]
      extractMessages_nothing_found [OF disjI2, OF b, of 5000 cachedTwo]
    by simp
qed

text \<open>
  C1 (the code departs from the claim): on the generic path a first pass over a page
  with two user messages caches two records; after both elements are removed, the next
  pass finds no element, returns the empty list and leaves the two stale records in the
  cache, although the live count is zero.
\<close>

theorem extractMessages_stale_cache:
  "extractMessages (pageOf chatgptUser [js ''first'', js ''second'']) 1000
     (detectorAt (js ''chatgpt.com'')) newMessageExtractor = Inr (messages cachedTwo, cachedTwo) \<and>
   allElements (pageOf chatgptUser []) = [] \<and>
   extractMessages (pageOf chatgptUser []) 5000 (detectorAt (js ''chatgpt.com'')) cachedTwo =
     Inr ([], cachedTwo) \<and>
   length (messages cachedTwo) = 2"
proof -
  have t: "trim (js ''first'') = js ''first''" "trim (js ''second'') = js ''second''"
    "getPreview (js ''first'') 60 = js ''first''" "getPreview (js ''second'') 60 = js ''second''"
    by (simp_all add: js_def trim_def isWhiteSpace_def getPreview_def removeBackticks_def)
  have f: "findElementsArray (pageOf chatgptUser [js ''first'', js ''second'']) (userSelectors chatgptPlatform) = Some [0, 1]"
    by (simp add: userSelectors_chatgpt pageOf_def querySelectorAll_def upt_rec)
  have e0: "extractText (pageOf chatgptUser [js ''first'', js ''second'']) 0 (Some (SelString (js ''div:first-child''))) = Inr (js ''first'')"
    using extractText_pageOf [of 0 "[js ''first'', js ''second'']"] by (simp add: t)
  have e1: "extractText (pageOf chatgptUser [js ''first'', js ''second'']) (Suc 0) (Some (SelString (js ''div:first-child''))) = Inr (js ''second'')"
    using extractText_pageOf [of 1 "[js ''first'', js ''second'']"] by (simp add: t)
  have ne: "js ''first'' \<noteq> []" "js ''second'' \<noteq> []" by (simp_all add: js_def)
  have each: "extractEach (pageOf chatgptUser [js ''first'', js ''second'']) 1000
      (messageContent (selectors chatgptPlatform)) 0 [0, 1] [] = Inr (messages cachedTwo)"
    by (simp add: content_chatgpt e0 e1 ne t cachedTwo_def)
  have a: "extractMessages (pageOf chatgptUser [js ''first'', js ''second'']) 1000
     (detectorAt (js ''chatgpt.com'')) newMessageExtractor = Inr (messages cachedTwo, cachedTwo)"
    using extractMessages_generic [OF detectorAt_chatgpt key_chatgpt f _ each, of newMessageExtractor]
    by (simp add: cachedTwo_def newMessageExtractor_def)
  have g: "findElementsArray (pageOf chatgptUser []) (userSelectors chatgptPlatform) = None"
    by (simp add: userSelectors_chatgpt pageOf_def querySelectorAll_def)
  have b: "extractMessages (pageOf chatgptUser []) 5000 (detectorAt (js ''chatgpt.com'')) cachedTwo =
     Inr ([], cachedTwo)"
    by (rule extractMessages_no_elements [OF detectorAt_chatgpt key_chatgpt g])
  show ?thesis using a b by (simp add: pageOf_def cachedTwo_def)
qed

text \<open>
  C2 (the code departs from the claim): on the generic path the index of a record is the
  position of its element among all matched elements, also those skipped for empty
  text. With a first element of blank text and a second of text \<open>b\<close>, the pass yields
  one record, with index 1 instead of 0.
\<close>

theorem extractMessages_index_gap:
  "extractMessages (pageOf chatgptUser [js ''  '', js ''b'']) 1000
     (detectorAt (js ''chatgpt.com'')) newMessageExtractor =
   Inr ([\<lparr>index = 1, userText = js ''b'', userElement = 1, timestamp = 1000, preview = js ''b''\<rparr>],
        \<lparr>messages = [\<lparr>index = 1, userText = js ''b'', userElement = 1, timestamp = 1000,
                       preview = js ''b''\<rparr>],
         lastExtractTime = 1000\<rparr>)"
proof -
  have t: "trim (js ''  '') = []" "trim (js ''b'') = js ''b''" "getPreview (js ''b'') 60 = js ''b''"
    by (simp_all add: js_def trim_def isWhiteSpace_def getPreview_def removeBackticks_def)
  have f: "findElementsArray (pageOf chatgptUser [js ''  '', js ''b'']) (userSelectors chatgptPlatform) = Some [0, 1]"
    by (simp add: userSelectors_chatgpt pageOf_def querySelectorAll_def upt_rec)
  have e0: "extractText (pageOf chatgptUser [js ''  '', js ''b'']) 0 (Some (SelString (js ''div:first-child''))) = Inr []"
    using extractText_pageOf [of 0 "[js ''  '', js ''b'']"] by (simp add: t)
  have e1: "extractText (pageOf chatgptUser [js ''  '', js ''b'']) (Suc 0) (Some (SelString (js ''div:first-child''))) = Inr (js ''b'')"
    using extractText_pageOf [of 1 "[js ''  '', js ''b'']"] by (simp add: t)
  have ne: "js ''b'' \<noteq> []" by (simp add: js_def)
  have each: "extractEach (pageOf chatgptUser [js ''  '', js ''b'']) 1000
      (messageContent (selectors chatgptPlatform)) 0 [0, 1] [] =
      Inr [\<lparr>index = 1, userText = js ''b'', userElement = 1, timestamp = 1000, preview = js ''b''\<rparr>]"
    by (simp add: content_chatgpt e0 e1 ne t)
  show ?thesis
    using extractMessages_generic [OF detectorAt_chatgpt key_chatgpt f _ each, of newMessageExtractor]
    by (simp add: newMessageExtractor_def)
qed

subsection \<open>What the extraction paths do guarantee\<close>

lemma extractEach_all_nonempty:
  assumes "\<forall>e\<in>set es. \<exists>t. extractText d e cs = Inr t \<and> t \<noteq> []"
  shows "\<exists>msgs. extractEach d now cs i es acc = Inr msgs \<and>
           map index msgs = map index acc @ [i..<i + length es] \<and>
           map userElement msgs = map userElement acc @ es"
  using assms
proof (induction es arbitrary: i acc)
  case Nil
  then show ?case by simp
next
  case (Cons e es)
  from Cons.prems obtain t where t: "extractText d e cs = Inr t" "t \<noteq> []" by auto
  let ?acc = "acc @ [\<lparr>index = i, userText = t, userElement = e, timestamp = now,
                          preview = getPreview t 60\<rparr>]"
  from Cons.prems have "\<forall>e\<in>set es. \<exists>t. extractText d e cs = Inr t \<and> t \<noteq> []" by simp
  from Cons.IH [OF this, of "Suc i" ?acc] obtain msgs where
    m: "extractEach d now cs (Suc i) es ?acc = Inr msgs"
       "map index msgs = map index ?acc @ [Suc i..<Suc i + length es]"
       "map userElement msgs = map userElement ?acc @ es"
    by blast
  have "[i..<i + length (e # es)] = i # [Suc i..<Suc i + length es]"
    by (simp add: upt_rec)
  with t m show ?case by simp
qed

text \<open>
  X1 (second half of C2): on the generic path, when every matched element yields
  non-empty text, a pass over \<open>N\<close> matched elements stores and returns exactly \<open>N\<close>
  records, with indices \<open>0..N-1\<close>, in document order.
\<close>

theorem extractMessages_dense_when_nonempty:
  assumes "getPlatformConfig det = Some p" and "key p \<noteq> js ''deepseek''"
    and "findElements d (SelArray (userSelectors p)) = Some els"
    and "\<forall>e\<in>set els. \<exists>t. extractText d e (messageContent (selectors p)) = Inr t \<and> t \<noteq> []"
  shows "\<exists>msgs. extractMessages d now det ex =
                  Inr (msgs, ex\<lparr>messages := msgs, lastExtractTime := now\<rparr>) \<and>
           length msgs = length els \<and>
           map index msgs = [0..<length els] \<and>
           map userElement msgs = els"
proof -
  have ne: "findElementsArray d sels = Some xs \<Longrightarrow> xs \<noteq> []" for sels xs
    by (induction sels) (auto split: sum.splits if_splits)
  from assms(3) have f: "findElementsArray d (userSelectors p) = Some els" and els: "els \<noteq> []"
    using ne by auto
  from extractEach_all_nonempty [OF assms(4), of now 0 "[]"] obtain msgs where
    m: "extractEach d now (messageContent (selectors p)) 0 els [] = Inr msgs"
       "map index msgs = [0..<length els]" "map userElement msgs = els"
    by auto
  from m(3) have "length msgs = length els" by (metis length_map)
  with assms(1,2) f els m show ?thesis by (simp add: extractMessages_def)
qed

theorem extractMessages_dense_when_nonempty_witness:
  "fst (projr (extractMessages (pageOf chatgptUser [js ''first'', js ''second'']) 1000
     (detectorAt (js ''chatgpt.com'')) newMessageExtractor)) = messages cachedTwo \<and>
   map index (messages cachedTwo) = [0, 1] \<and>
   map userElement (messages cachedTwo) = [0, 1]"
proof -
  let ?d = "pageOf chatgptUser [js ''first'', js ''second'']"
  have t: "trim (js ''first'') = js ''first''" "trim (js ''second'') = js ''second''"
    "js ''first'' \<noteq> []" "js ''second'' \<noteq> []"
    by (simp_all add: js_def trim_def isWhiteSpace_def)
  have f: "findElements ?d (SelArray (userSelectors chatgptPlatform)) = Some [0, 1]"
    by (simp add: userSelectors_chatgpt pageOf_def querySelectorAll_def upt_rec)
  have e: "\<forall>e\<in>set [0, 1]. \<exists>t. extractText ?d e (messageContent (selectors chatgptPlatform)) = Inr t \<and> t \<noteq> []"
    using extractText_pageOf [of 0 "[js ''first'', js ''second'']"]
      extractText_pageOf [of 1 "[js ''first'', js ''second'']"]
    by (simp add: content_chatgpt t)
  note m = extractMessages_dense_when_nonempty
    [OF detectorAt_chatgpt key_chatgpt f e, of 1000 newMessageExtractor]
  have v: "extractMessages ?d 1000 (detectorAt (js ''chatgpt.com'')) newMessageExtractor =
      Inr (messages cachedTwo, cachedTwo)"
  proof -
    have g: "getPreview (js ''first'') 60 = js ''first''" "getPreview (js ''second'') 60 = js ''second''"
      by (simp_all add: js_def trim_def isWhiteSpace_def getPreview_def removeBackticks_def)
    have e0: "extractText ?d 0 (Some (SelString (js ''div:first-child''))) = Inr (js ''first'')"
      using extractText_pageOf [of 0 "[js ''first'', js ''second'']"] by (simp add: t)
    have e1: "extractText ?d (Suc 0) (Some (SelString (js ''div:first-child''))) = Inr (js ''second'')"
      using extractText_pageOf [of 1 "[js ''first'', js ''second'']"] by (simp add: t)
    have each: "extractEach ?d 1000 (messageContent (selectors chatgptPlatform)) 0 [0, 1] [] =
        Inr (messages cachedTwo)"
      by (simp add: content_chatgpt e0 e1 t g cachedTwo_def)
    from f have f': "findElementsArray ?d (userSelectors chatgptPlatform) = Some [0, 1]" by simp
    show ?thesis
      using extractMessages_generic [OF detectorAt_chatgpt key_chatgpt f' _ each, of newMessageExtractor]
      by (simp add: cachedTwo_def newMessageExtractor_def)
  qed
  from m show ?thesis unfolding v by (auto simp: upt_rec)
qed

lemma extractEachDeepSeek_dense:
  "map index acc = [0..<length acc] \<Longrightarrow>
   map index (extractEachDeepSeek d now es acc) = [0..<length (extractEachDeepSeek d now es acc)]"
proof (induction es arbitrary: acc)
  case Nil
  then show ?case by simp
next
  case (Cons e es)
  then show ?case by (auto simp: Let_def split: option.splits)
qed

text \<open>
  X2: on the DeepSeek path the indices of the records of a pass are always dense,
  \<open>0..count-1\<close>, and the pass always replaces the cache and the timestamp.
\<close>

theorem extractMessages_deepseek_dense:
  assumes "getPlatformConfig det = Some p" and "key p = js ''deepseek''"
  shows "\<exists>msgs. extractMessages d now det ex =
                  Inr (msgs, ex\<lparr>messages := msgs, lastExtractTime := now\<rparr>) \<and>
           map index msgs = [0..<length msgs]"
  using assms extractEachDeepSeek_dense [of "[]" d now "queryAllLiteral d (js ''.ds-message'')"]
  by (simp add: extractMessages_def extractMessagesForDeepSeek_def Let_def)

lemma detectorAt_deepseek:
  "\<exists>p. getPlatformConfig (detectorAt (js ''chat.deepseek.com'')) = Some p \<and> key p = js ''deepseek''"
  by (simp add: detectorAt_def detectPlatform_def newPlatformDetector_def getPlatformConfig_def
      getDefaultPlatformsConfig_def js_def)

lemma extractMessages_deepseekPage:
  "extractMessages deepseekPage 7 (detectorAt (js ''chat.deepseek.com'')) cachedTwo =
     Inr ([\<lparr>index = 0, userText = js ''hi'', userElement = 0, timestamp = 7, preview = js ''hi''\<rparr>,
           \<lparr>index = 1, userText = js ''bye'', userElement = 4, timestamp = 7, preview = js ''bye''\<rparr>],
          \<lparr>messages =
             [\<lparr>index = 0, userText = js ''hi'', userElement = 0, timestamp = 7, preview = js ''hi''\<rparr>,
              \<lparr>index = 1, userText = js ''bye'', userElement = 4, timestamp = 7, preview = js ''bye''\<rparr>],
           lastExtractTime = 7\<rparr>)"
proof -
  obtain p where p: "getPlatformConfig (detectorAt (js ''chat.deepseek.com'')) = Some p"
    "key p = js ''deepseek''"
    using detectorAt_deepseek by blast
  have t: "trim (js '' hi '') = js ''hi''" "trim (js ''bye'') = js ''bye''"
    "getPreview (js ''hi'') 60 = js ''hi''" "getPreview (js ''bye'') 60 = js ''bye''"
    by (simp_all add: js_def trim_def isWhiteSpace_def getPreview_def removeBackticks_def)
  have ne: "js ''hi'' \<noteq> []" "js ''bye'' \<noteq> []" by (simp_all add: js_def)
  have s: "js ''.fbb737a4'' \<noteq> js ''.ds-message''" "js ''.fbb737a4'' \<noteq> js ''.ds-message .fbb737a4''"
    by (simp_all add: js_def)
  have q: "queryAllLiteral deepseekPage (js ''.ds-message'') = [0, 2, 4]"
    by (simp add: queryAllLiteral_def deepseekPage_def js_def)
  have c: "queryLiteral deepseekPage 0 (js ''.fbb737a4'') = Some 1"
    "queryLiteral deepseekPage 2 (js ''.fbb737a4'') = None"
    "queryLiteral deepseekPage 4 (js ''.fbb737a4'') = Some 5"
    by (simp_all add: queryLiteral_def deepseekPage_def s)
  have x: "textContent deepseekPage (Suc 0) = js '' hi ''" "textContent deepseekPage 5 = js ''bye''"
    by (simp_all add: deepseekPage_def)
  show ?thesis
    using p by (simp add: extractMessages_def extractMessagesForDeepSeek_def Let_def q c x t ne
        cachedTwo_def)
qed

theorem extractMessages_deepseek_dense_witness:
  "map index (fst (projr (extractMessages deepseekPage 7 (detectorAt (js ''chat.deepseek.com'')) cachedTwo)))
     = [0, 1] \<and>
   map userElement (messages (snd (projr (extractMessages deepseekPage 7
      (detectorAt (js ''chat.deepseek.com'')) cachedTwo)))) = [0, 4]"
proof -
  obtain p where p: "getPlatformConfig (detectorAt (js ''chat.deepseek.com'')) = Some p"
    "key p = js ''deepseek''"
    using detectorAt_deepseek by blast
  from extractMessages_deepseek_dense [OF p, of deepseekPage 7 cachedTwo]
  show ?thesis by (simp add: extractMessages_deepseekPage)
qed

text \<open>
  X3: a pass that returns either returns the empty list and leaves the extractor as it
  was, or stores exactly the list it returns together with the current time; no record
  of an earlier pass survives a pass that stores.
\<close>

theorem extractMessages_replaces_cache:
  assumes "extractMessages d now det ex = Inr (msgs, ex')"
  shows "(msgs = [] \<and> ex' = ex) \<or> ex' = ex\<lparr>messages := msgs, lastExtractTime := now\<rparr>"
  using assms
  by (auto simp: extractMessages_def extractMessagesForDeepSeek_def Let_def
      split: option.splits if_splits sum.splits)


theorem extractMessages_replaces_cache_witness:
  "messages (snd (projr (extractMessages deepseekPage 7 (detectorAt (js ''chat.deepseek.com''))
      cachedTwo))) =
     fst (projr (extractMessages deepseekPage 7 (detectorAt (js ''chat.deepseek.com'')) cachedTwo)) \<and>
   lastExtractTime (snd (projr (extractMessages deepseekPage 7
      (detectorAt (js ''chat.deepseek.com'')) cachedTwo))) = 7"
  using extractMessages_replaces_cache [OF extractMessages_deepseekPage]
  by (simp add: extractMessages_deepseekPage)

subsection \<open>\<open>shouldRefresh\<close>\<close>





section \<open>Properties of the sidebar manager\<close>

lemma createSidebar_new:
  "createSidebar newSidebarManager emptyBrowser = (builtSidebar, builtManager, builtBrowser)"
  by (simp add: createSidebar_def newSidebarManager_def attachEventListeners_def Let_def
      builtSidebar_def builtManager_def builtBrowser_def sidebarTemplate_def emptyBrowser_def)

lemma storage_createSidebar: "storage (snd (snd (createSidebar mgr br))) = storage br"
  by (simp add: createSidebar_def Let_def split: option.splits)

text \<open>
  C3, as stated, fails: \<open>hide\<close> and \<open>show\<close> change the visibility state and write nothing
  to storage.
\<close>

theorem show_hide_storage_counterexample:
  "isVisible builtManager \<and>
   \<not> isVisible (fst (hide builtManager builtBrowser)) \<and>
   storage (snd (hide builtManager builtBrowser)) (js ''sidebarVisible'') = None \<and>
   isVisible (fst (show_sidebar newSidebarManager emptyBrowser)) \<and>
   storage (snd (show_sidebar newSidebarManager emptyBrowser)) (js ''sidebarVisible'') = None"
proof -
  have h: "hide builtManager builtBrowser =
      (builtManager\<lparr>isVisible := False, sidebarElement := Some (builtSidebar\<lparr>collapsed := True\<rparr>)\<rparr>,
       builtBrowser)"
    by (simp add: hide_def builtManager_def)
  have s: "show_sidebar newSidebarManager emptyBrowser =
      (builtManager\<lparr>isVisible := True, sidebarElement := Some (builtSidebar\<lparr>collapsed := False\<rparr>)\<rparr>,
       builtBrowser)"
    by (simp add: show_sidebar_def createSidebar_new)
  show ?thesis
    unfolding h s by (simp add: builtManager_def builtBrowser_def emptyBrowser_def)
qed

text \<open>
  C3 (amended): \<open>toggleSidebar\<close>, once the sidebar exists, flips the visibility state and
  writes the resulting boolean to extension-local storage under the key
  \<open>sidebarVisible\<close> (before the sidebar exists it does nothing); \<open>show\<close> sets the state
  to visible and \<open>hide\<close>, once the sidebar exists, to hidden, and neither writes to
  storage.
\<close>

theorem toggle_persists_visibility:
  "(case sidebarElement mgr of
      None \<Rightarrow> toggleSidebar mgr br = (mgr, br)
    | Some sb \<Rightarrow>
        isVisible (fst (toggleSidebar mgr br)) = (\<not> isVisible mgr) \<and>
        sidebarElement (fst (toggleSidebar mgr br)) =
          Some (sb\<lparr>collapsed := isVisible mgr,
                   toggleIcon := (if isVisible mgr then js ''+'' else [0x2212])\<rparr>) \<and>
        storage (snd (toggleSidebar mgr br)) =
          (storage br)(js ''sidebarVisible'' \<mapsto> \<not> isVisible mgr)) \<and>
   isVisible (fst (show_sidebar mgr br)) \<and>
   map_option collapsed (sidebarElement (fst (show_sidebar mgr br))) = Some False \<and>
   storage (snd (show_sidebar mgr br)) = storage br \<and>
   (case sidebarElement mgr of
      None \<Rightarrow> hide mgr br = (mgr, br)
    | Some sb \<Rightarrow>
        \<not> isVisible (fst (hide mgr br)) \<and>
        sidebarElement (fst (hide mgr br)) = Some (sb\<lparr>collapsed := True\<rparr>)) \<and>
   storage (snd (hide mgr br)) = storage br"
proof -
  have t: "case sidebarElement mgr of
      None \<Rightarrow> toggleSidebar mgr br = (mgr, br)
    | Some sb \<Rightarrow>
        isVisible (fst (toggleSidebar mgr br)) = (\<not> isVisible mgr) \<and>
        sidebarElement (fst (toggleSidebar mgr br)) =
          Some (sb\<lparr>collapsed := isVisible mgr,
                   toggleIcon := (if isVisible mgr then js ''+'' else [0x2212])\<rparr>) \<and>
        storage (snd (toggleSidebar mgr br)) =
          (storage br)(js ''sidebarVisible'' \<mapsto> \<not> isVisible mgr)"
    by (simp add: toggleSidebar_def Let_def split: option.splits)
  have s: "isVisible (fst (show_sidebar mgr br))"
    "map_option collapsed (sidebarElement (fst (show_sidebar mgr br))) = Some False"
    "storage (snd (show_sidebar mgr br)) = storage br"
    using storage_createSidebar [of mgr br]
    by (auto simp: show_sidebar_def split: prod.splits)
  have h: "case sidebarElement mgr of
      None \<Rightarrow> hide mgr br = (mgr, br)
    | Some sb \<Rightarrow>
        \<not> isVisible (fst (hide mgr br)) \<and>
        sidebarElement (fst (hide mgr br)) = Some (sb\<lparr>collapsed := True\<rparr>)"
    "storage (snd (hide mgr br)) = storage br"
    by (simp_all add: hide_def split: option.splits)
  from t s h show ?thesis by blast
qed

theorem toggle_persists_visibility_witness:
  "sidebarElement builtManager = Some builtSidebar \<and>
   isVisible builtManager \<and>
   \<not> isVisible (fst (toggleSidebar builtManager builtBrowser)) \<and>
   storage (snd (toggleSidebar builtManager builtBrowser)) (js ''sidebarVisible'') = Some False \<and>
   storage (snd (hide builtManager builtBrowser)) = storage builtBrowser \<and>
   toggleSidebar newSidebarManager emptyBrowser = (newSidebarManager, emptyBrowser)"
proof -
  have b: "sidebarElement builtManager = Some builtSidebar" "isVisible builtManager"
    "sidebarElement newSidebarManager = None"
    by (simp_all add: builtManager_def newSidebarManager_def)
  show ?thesis
    using toggle_persists_visibility [of builtManager builtBrowser]
      toggle_persists_visibility [of newSidebarManager emptyBrowser] b
    by simp
qed

lemma getMessageByIndex_None_iff:
  "getMessageByIndex ex idx = None \<longleftrightarrow>
     idx = NaN \<or> (\<exists>i. idx = Num i \<and> (i < 0 \<or> int (length (messages ex)) \<le> i))"
  by (cases idx) auto

text \<open>
  C8: for every index with no matching cached record (\<open>NaN\<close>, a negative index, an index
  past the end of the cache), \<open>scrollToMessage\<close> only logs a warning: the sidebar DOM,
  the scroll position, the highlighted elements, the tracked highlight and the pending
  timeouts are unchanged.
\<close>

theorem scrollToMessage_missing_noop:
  assumes "idx = NaN \<or> (\<exists>i. idx = Num i \<and> (i < 0 \<or> int (length (messages ex)) \<le> i))"
  shows "getMessageByIndex ex idx = None \<and>
         scrollToMessage mgr ex br idx =
           (mgr, br\<lparr>console := console br @ [WarnMessageNotFound idx]\<rparr>) \<and>
         sidebarElement (fst (scrollToMessage mgr ex br idx)) = sidebarElement mgr \<and>
         highlightedElement (fst (scrollToMessage mgr ex br idx)) = highlightedElement mgr \<and>
         scrolledTo (snd (scrollToMessage mgr ex br idx)) = scrolledTo br \<and>
         highlighted (snd (scrollToMessage mgr ex br idx)) = highlighted br \<and>
         highlightTimers (snd (scrollToMessage mgr ex br idx)) = highlightTimers br"
proof -
  from assms have n: "getMessageByIndex ex idx = None"
    by (simp only: getMessageByIndex_None_iff)
  then have "scrollToMessage mgr ex br idx =
           (mgr, br\<lparr>console := console br @ [WarnMessageNotFound idx]\<rparr>)"
    by (simp add: scrollToMessage_def)
  with n show ?thesis by simp
qed

theorem scrollToMessage_missing_noop_witness:
  "scrollToMessage builtManager cachedTwo builtBrowser (Num 2) =
     (builtManager, builtBrowser\<lparr>console := [WarnMessageNotFound (Num 2)]\<rparr>) \<and>
   scrollToMessage builtManager cachedTwo builtBrowser (Num (- 1)) =
     (builtManager, builtBrowser\<lparr>console := [WarnMessageNotFound (Num (- 1))]\<rparr>) \<and>
   scrollToMessage builtManager cachedTwo builtBrowser NaN =
     (builtManager, builtBrowser\<lparr>console := [WarnMessageNotFound NaN]\<rparr>) \<and>
   scrolledTo (snd (scrollToMessage builtManager cachedTwo builtBrowser (Num 1))) = Some 1"
proof -
  have a: "Num 2 = NaN \<or> (\<exists>i. Num 2 = Num i \<and> (i < 0 \<or> int (length (messages cachedTwo)) \<le> i))"
    by (simp add: cachedTwo_def)
  have b: "Num (- 1) = NaN \<or> (\<exists>i. Num (- 1) = Num i \<and> (i < 0 \<or> int (length (messages cachedTwo)) \<le> i))"
    by simp
  have c: "NaN = NaN \<or> (\<exists>i. NaN = Num i \<and> (i < 0 \<or> int (length (messages cachedTwo)) \<le> i))"
    by simp
  have e: "console builtBrowser = []" by (simp add: builtBrowser_def emptyBrowser_def)
  have d: "scrolledTo (snd (scrollToMessage builtManager cachedTwo builtBrowser (Num 1))) = Some 1"
    by (simp add: scrollToMessage_def cachedTwo_def Let_def)
  show ?thesis
    using scrollToMessage_missing_noop [OF a, of builtManager builtBrowser]
      scrollToMessage_missing_noop [OF b, of builtManager builtBrowser]
      scrollToMessage_missing_noop [OF c, of builtManager builtBrowser] d e
    by simp
qed

text \<open>
  C9: \<open>createSidebar\<close> is idempotent. With a sidebar already built it returns the
  existing element and changes nothing; otherwise it builds the sidebar, appends it to
  the body once and attaches each of the two listeners once, and a second call after
  that returns the same element and changes nothing.
\<close>

theorem createSidebar_idempotent:
  "(case sidebarElement mgr of
      Some sb \<Rightarrow> createSidebar mgr br = (sb, mgr, br)
    | None \<Rightarrow>
        createSidebar mgr br =
          (sidebarTemplate\<lparr>toggleListeners := 1, listListeners := 1\<rparr>,
           mgr\<lparr>sidebarElement := Some (sidebarTemplate\<lparr>toggleListeners := 1, listListeners := 1\<rparr>)\<rparr>,
           br\<lparr>bodySidebars := bodySidebars br + 1\<rparr>)) \<and>
   (case createSidebar mgr br of
      (sb, mgr', br') \<Rightarrow> sidebarElement mgr' = Some sb \<and> createSidebar mgr' br' = (sb, mgr', br'))"
  by (simp add: createSidebar_def attachEventListeners_def Let_def sidebarTemplate_def
      split: option.splits)

theorem createSidebar_idempotent_witness:
  "createSidebar newSidebarManager emptyBrowser = (builtSidebar, builtManager, builtBrowser) \<and>
   createSidebar builtManager builtBrowser = (builtSidebar, builtManager, builtBrowser) \<and>
   toggleListeners builtSidebar = 1 \<and> listListeners builtSidebar = 1 \<and>
   bodySidebars builtBrowser = 1"
proof -
  have n: "sidebarElement newSidebarManager = None" by (simp add: newSidebarManager_def)
  have v: "builtSidebar = sidebarTemplate\<lparr>toggleListeners := 1, listListeners := 1\<rparr>"
    "builtManager = newSidebarManager\<lparr>sidebarElement := Some builtSidebar\<rparr>"
    "builtBrowser = emptyBrowser\<lparr>bodySidebars := bodySidebars emptyBrowser + 1\<rparr>"
    by (simp_all add: builtSidebar_def builtManager_def newSidebarManager_def builtBrowser_def
        emptyBrowser_def)
  from createSidebar_idempotent [of newSidebarManager emptyBrowser] n v
  have c: "createSidebar newSidebarManager emptyBrowser = (builtSidebar, builtManager, builtBrowser)"
    by simp
  with createSidebar_idempotent [of newSidebarManager emptyBrowser]
  have "createSidebar builtManager builtBrowser = (builtSidebar, builtManager, builtBrowser)"
    by simp
  with c show ?thesis
    by (simp add: builtSidebar_def builtBrowser_def emptyBrowser_def)
qed

end
